theory Spec2Isabelle
  imports Main "HOL-Library.Sublist"
begin

section \<open>Go values and library functions used by pkg/utils/util.go\<close>

text \<open>
  A Go string is a sequence of bytes: \<^typ>\<open>string\<close> (a list of \<^typ>\<open>char\<close>, one per
  byte). A call either returns or panics; an \<open>error\<close> is an ordinary returned value.
  Errors made by \<open>fmt.Errorf\<close> in util.go carry their formatted message; errors handed
  back by a library (encoding/json, sigs.k8s.io/yaml, text/template) are kept apart by
  their constructor.
\<close>

datatype error =
    Errorf string
  | JSONError string
  | YAMLError string
  | TemplateError string

datatype 'a outcome = Returns 'a | Panics

text \<open>
  The parts of the Go runtime that decode UTF-8 and consult the Unicode tables are not
  in this repository; they are parameters of the model. All three are only ever applied
  to input that holds a byte \<open>\<ge> 0x80\<close>.
  \<^item> \<open>TrimFunc_IsSpace s\<close> is \<open>strings.TrimFunc(s, unicode.IsSpace)\<close>;
  \<^item> \<open>TrimRightFunc_IsSpace s\<close> is \<open>strings.TrimRightFunc(s, unicode.IsSpace)\<close>;
  \<^item> \<open>quoteRun s\<close> is what \<open>strconv.Quote\<close> emits (between the quotes) for a maximal
    run \<open>s\<close> of bytes \<open>\<ge> 0x80\<close>: a multi-byte UTF-8 sequence consists of such bytes
    only, so the runes of a run are decoded inside it.
\<close>

record unicode =
  TrimFunc_IsSpace :: "string \<Rightarrow> string"
  TrimRightFunc_IsSpace :: "string \<Rightarrow> string"
  quoteRun :: "string \<Rightarrow> string"

definition RuneSelf :: nat where
  "RuneSelf = 0x80"

definition isASCII :: "char \<Rightarrow> bool" where
  "isASCII c = ((of_char c :: nat) < RuneSelf)"

subsection \<open>strings.TrimSpace\<close>

text \<open>The table \<open>asciiSpace\<close> of package strings: tab, newline, vertical tab, form feed,
  carriage return and space.\<close>

definition asciiSpace :: "char \<Rightarrow> bool" where
  "asciiSpace c = ((of_char c :: nat) \<in> {0x09, 0x0A, 0x0B, 0x0C, 0x0D, 0x20})"

text \<open>
  \<open>strings.TrimSpace\<close>: skip ASCII space from the left; on a non-ASCII byte fall back
  to \<open>TrimFunc\<close> on the rest; then the same from the right, falling back to
  \<open>TrimRightFunc\<close>.
\<close>

definition TrimSpace :: "unicode \<Rightarrow> string \<Rightarrow> string" where
  "TrimSpace u s =
     (let s1 = dropWhile asciiSpace s in
      case s1 of
        [] \<Rightarrow> []
      | c # _ \<Rightarrow>
          if \<not> isASCII c then TrimFunc_IsSpace u s1
          else
            (let r = dropWhile asciiSpace (rev s1) in
             case r of
               [] \<Rightarrow> []
             | d # _ \<Rightarrow>
                 if \<not> isASCII d then TrimRightFunc_IsSpace u (rev r)
                 else rev r))"

subsection \<open>strconv.Quote\<close>

definition lowerhex :: string where
  "lowerhex = ''0123456789abcdef''"

text \<open>
  \<open>appendEscapedRune\<close> of package strconv for a rune below \<open>RuneSelf\<close>, with the quote
  character \<open>"\<close> and neither ASCIIonly nor graphicOnly: the quote and the backslash
  are backslashed, a printable rune (\<open>0x20 \<le> r < 0x7F\<close>) is copied, the seven control
  characters with a letter escape take it, and any other control character becomes
  \<open>\x\<close> and two hex digits.
\<close>

definition appendEscapedRune :: "char \<Rightarrow> string" where
  "appendEscapedRune c =
     (let r = (of_char c :: nat) in
      if r = 0x22 \<or> r = 0x5C then [CHR 0x5C, c]
      else if 0x20 \<le> r \<and> r < 0x7F then [c]
      else if r = 0x07 then [CHR 0x5C, CHR ''a'']
      else if r = 0x08 then [CHR 0x5C, CHR ''b'']
      else if r = 0x0C then [CHR 0x5C, CHR ''f'']
      else if r = 0x0A then [CHR 0x5C, CHR ''n'']
      else if r = 0x0D then [CHR 0x5C, CHR ''r'']
      else if r = 0x09 then [CHR 0x5C, CHR ''t'']
      else if r = 0x0B then [CHR 0x5C, CHR ''v'']
      else [CHR 0x5C, CHR ''x'', lowerhex ! (r div 16), lowerhex ! (r mod 16)])"

text \<open>The loop of \<open>appendQuotedWith\<close>: ASCII bytes one at a time, a run of non-ASCII
  bytes through \<open>quoteRun\<close>.\<close>

function appendQuotedWith :: "unicode \<Rightarrow> string \<Rightarrow> string" where
  "appendQuotedWith u [] = []"
| "appendQuotedWith u (c # cs) =
     (if isASCII c then appendEscapedRune c @ appendQuotedWith u cs
      else quoteRun u (c # takeWhile (\<lambda>b. \<not> isASCII b) cs)
             @ appendQuotedWith u (dropWhile (\<lambda>b. \<not> isASCII b) cs))"
  by pat_completeness auto
termination
  by (relation "measure (\<lambda>(u, s). length s)")
     (auto simp: length_dropWhile_le less_Suc_eq_le)

definition Quote :: "unicode \<Rightarrow> string \<Rightarrow> string" where
  "Quote u s = [CHR 0x22] @ appendQuotedWith u s @ [CHR 0x22]"

text \<open>The Go slice expression \<open>s[lo:hi]\<close> (for \<open>lo \<le> hi \<le> len(s)\<close>).\<close>

definition slice :: "string \<Rightarrow> nat \<Rightarrow> nat \<Rightarrow> string" where
  "slice s lo hi = take (hi - lo) (drop lo s)"

subsection \<open>encoding/json: a string literal\<close>

text \<open>
  What \<open>json.Unmarshal\<close> makes of a string literal (its scanner, then \<open>unquoteBytes\<close>):
  a backslash starts an escape, one of \<open>" \ / b f n r t\<close> or \<open>u\<close>; a bare quote or a
  control character below \<open>0x20\<close> is invalid; any other ASCII byte stands for itself.
  The model covers literals of ASCII bytes with two-character escapes; on a \<open>\u\<close>
  escape or a byte \<open>\<ge> 0x80\<close>, whose decoding goes through UTF-16 and UTF-8, it answers
  \<open>Unmodelled\<close>.
\<close>

datatype unquoted = Unquoted string | Invalid | Unmodelled

definition unquoteEscape :: "char \<Rightarrow> char option" where
  "unquoteEscape e =
     (let r = (of_char e :: nat) in
      if r = 0x22 \<or> r = 0x5C \<or> r = 0x2F then Some e
      else if e = CHR ''b'' then Some (CHR 0x08)
      else if e = CHR ''f'' then Some (CHR 0x0C)
      else if e = CHR ''n'' then Some (CHR 0x0A)
      else if e = CHR ''r'' then Some (CHR 0x0D)
      else if e = CHR ''t'' then Some (CHR 0x09)
      else None)"

definition emit :: "char \<Rightarrow> unquoted \<Rightarrow> unquoted" where
  "emit c r = (case r of Unquoted v \<Rightarrow> Unquoted (c # v) | Invalid \<Rightarrow> Invalid | Unmodelled \<Rightarrow> Unmodelled)"

fun unquoteBytes_loop :: "string \<Rightarrow> unquoted" where
  "unquoteBytes_loop [] = Unquoted []"
| "unquoteBytes_loop [c] =
     (if of_char c = (0x5C :: nat) \<or> of_char c = (0x22 :: nat) \<or> of_char c < (0x20 :: nat) then Invalid
      else if isASCII c then Unquoted [c]
      else Unmodelled)"
| "unquoteBytes_loop (c # e # cs) =
     (if of_char c = (0x5C :: nat) then
        (if e = CHR ''u'' then Unmodelled
         else case unquoteEscape e of
                None \<Rightarrow> Invalid
              | Some d \<Rightarrow> emit d (unquoteBytes_loop cs))
      else if of_char c = (0x22 :: nat) \<or> of_char c < (0x20 :: nat) then Invalid
      else if isASCII c then emit c (unquoteBytes_loop (e # cs))
      else Unmodelled)"


subsection \<open>github.com/valyala/fasttemplate\<close>

text \<open>
  The template of fasttemplate, as \<open>Template.Reset\<close> builds it for the start tag
  \<open>{{\<close> and the end tag \<open>}}\<close>: the text pieces and the tags between them. A template
  without a start tag keeps both lists empty and is executed from \<open>template\<close>.
\<close>

definition startTag :: string where
  "startTag = ''{{''"

definition endTag :: string where
  "endTag = ''}}''"

text \<open>\<open>bytes.Index\<close>: the position of the first occurrence of \<open>sep\<close>, \<open>None\<close> for \<open>-1\<close>.\<close>

fun Index :: "string \<Rightarrow> string \<Rightarrow> nat option" where
  "Index [] sep = (if sep = [] then Some 0 else None)"
| "Index (c # cs) sep =
     (if prefix sep (c # cs) then Some 0 else map_option Suc (Index cs sep))"

record Template =
  template :: string
  texts :: "string list"
  tags :: "string list"

lemma Index_Some_le: "Index s sep = Some n \<Longrightarrow> n + length sep \<le> length s"
proof (induction s arbitrary: n)
  case Nil
  then show ?case by (simp split: if_splits)
next
  case (Cons c cs)
  show ?case
  proof (cases "prefix sep (c # cs)")
    case True
    with Cons.prems have "n = 0" by simp
    with prefix_length_le [OF True] show ?thesis by simp
  next
    case False
    with Cons.prems obtain m where "Index cs sep = Some m" "n = Suc m" by auto
    with Cons.IH show ?thesis by fastforce
  qed
qed

text \<open>The scanning loop of \<open>Template.Reset\<close>; \<open>Inl\<close> is its error "Cannot find end
  tag".\<close>

function Reset_loop ::
  "string \<Rightarrow> string list \<Rightarrow> string list \<Rightarrow> string + (string list \<times> string list)" where
  "Reset_loop s txs tgs =
     (case Index s startTag of
        None \<Rightarrow> Inr (txs @ [s], tgs)
      | Some n \<Rightarrow>
          (let s1 = drop (n + length startTag) s in
           case Index s1 endTag of
             None \<Rightarrow> Inl ''Cannot find end tag''
           | Some k \<Rightarrow>
               Reset_loop (drop (k + length endTag) s1) (txs @ [take n s]) (tgs @ [take k s1])))"
  by pat_completeness auto
termination
proof (relation "measure (\<lambda>(s, txs, tgs). length s)", goal_cases)
  case 1
  show ?case by simp
next
  case (2 s txs tgs n s1 k)
  from Index_Some_le [OF 2(1)] 2(2) show ?case
    by (simp add: startTag_def endTag_def)
qed

declare Reset_loop.simps [simp del]

text \<open>\<open>NewTemplate\<close>: with no start tag in the text (\<open>bytes.Count(s, a) == 0\<close>) the lists
  stay empty. \<open>New\<close> panics where \<open>NewTemplate\<close> returns an error.\<close>

definition NewTemplate :: "string \<Rightarrow> string + Template" where
  "NewTemplate s =
     (if Index s startTag = None then Inr \<lparr>template = s, texts = [], tags = []\<rparr>
      else
        (case Reset_loop s [] [] of
           Inl e \<Rightarrow> Inl e
         | Inr (txs, tgs) \<Rightarrow> Inr \<lparr>template = s, texts = txs, tags = tgs\<rparr>))"

definition New :: "string \<Rightarrow> Template outcome" where
  "New s = (case NewTemplate s of Inl e \<Rightarrow> Panics | Inr t \<Rightarrow> Returns t)"

text \<open>
  The state that executing a template changes: the byte buffer \<open>bb\<close> that
  \<open>ExecuteFuncString\<close> writes to (the \<open>io.Writer\<close> handed to the tag function), and the
  variable \<open>unresolvedErr\<close> that the tag function of \<open>replaceWithFastTemplate\<close> captures.
  Writing to the byte buffer never fails, so the error a tag function returns from
  \<open>w.Write\<close> is always nil and \<open>ExecuteFuncString\<close> never panics on it.
\<close>

record exec_state =
  bb :: string
  unresolvedErr :: "error option"

definition Write :: "string \<Rightarrow> exec_state \<Rightarrow> exec_state" where
  "Write p st = st\<lparr>bb := bb st @ p\<rparr>"

text \<open>
  The loop of \<open>Template.ExecuteFunc\<close>, \<open>for i := 0; i < n; i++\<close> with
  \<open>n = len(texts) - 1\<close>, followed by the write of \<open>texts[n]\<close>. Reading \<open>tags[i]\<close> out of
  range panics. (\<open>ExecuteFunc\<close> enters the loop with a text piece, so the first equation
  is never reached.)
\<close>

fun ExecuteFunc_loop ::
  "(string \<Rightarrow> exec_state \<Rightarrow> exec_state) \<Rightarrow> string list \<Rightarrow> string list \<Rightarrow> exec_state
     \<Rightarrow> exec_state outcome" where
  "ExecuteFunc_loop f [] tgs st = Panics"
| "ExecuteFunc_loop f [tx] tgs st = Returns (Write tx st)"
| "ExecuteFunc_loop f (tx # txs) [] st = Panics"
| "ExecuteFunc_loop f (tx # txs) (tg # tgs) st = ExecuteFunc_loop f txs tgs (f tg (Write tx st))"

definition ExecuteFunc ::
  "Template \<Rightarrow> (string \<Rightarrow> exec_state \<Rightarrow> exec_state) \<Rightarrow> exec_state \<Rightarrow> exec_state outcome" where
  "ExecuteFunc t f st =
     (if texts t = [] then Returns (Write (template t) st)
      else ExecuteFunc_loop f (texts t) (tags t) st)"

section \<open>replaceWithFastTemplate\<close>

text \<open>
  The tag function that \<open>replaceWithFastTemplate\<close> passes to \<open>ExecuteFuncString\<close>
  (util.go, lines 100 to 118). Reading a missing key of the map gives the empty string
  and \<open>ok = false\<close>. \<open>fmt.Sprintf("{{%s}}", tag)\<close> is the tag between the two delimiters.
  \<open>quoted\<close> and \<open>stripped\<close> are the values that lines 115 and 116 assign to
  \<open>replacement\<close>.
\<close>

definition tagFunc ::
  "unicode \<Rightarrow> (string \<rightharpoonup> string) \<Rightarrow> bool \<Rightarrow> string \<Rightarrow> exec_state \<Rightarrow> exec_state" where
  "tagFunc u replaceMap allowUnresolved tag st =
     (let trimmedTag = TrimSpace u tag;
          replacement = (case replaceMap trimmedTag of None \<Rightarrow> [] | Some v \<Rightarrow> v);
          ok = (replaceMap trimmedTag \<noteq> None)
      in if length trimmedTag = 0 \<or> \<not> ok then
           (if allowUnresolved then Write (''{{'' @ tag @ ''}}'') st
            else st\<lparr>unresolvedErr := Some (Errorf (''failed to resolve {{'' @ tag @ ''}}''))\<rparr>)
         else
           (let quoted = Quote u replacement;
                stripped = slice quoted 1 (length quoted - 1)
            in Write stripped st))"

definition replaceWithFastTemplate ::
  "unicode \<Rightarrow> Template \<Rightarrow> (string \<rightharpoonup> string) \<Rightarrow> bool \<Rightarrow> (string \<times> error option) outcome" where
  "replaceWithFastTemplate u fstTmpl replaceMap allowUnresolved =
     (case ExecuteFunc fstTmpl (tagFunc u replaceMap allowUnresolved)
             \<lparr>bb = [], unresolvedErr = None\<rparr> of
        Panics \<Rightarrow> Panics
      | Returns st \<Rightarrow>
          (case unresolvedErr st of
             Some e \<Rightarrow> Returns ([], Some e)
           | None \<Rightarrow> Returns (bb st, None)))"

text \<open>
  Lines 47 and 48 of \<open>RenderTemplateParams\<close>: \<open>fasttemplate.New(text, "{{", "}}")\<close>, then
  \<open>replaceWithFastTemplate\<close> on the template it returns.
\<close>

definition Substitute ::
  "unicode \<Rightarrow> string \<Rightarrow> (string \<rightharpoonup> string) \<Rightarrow> bool \<Rightarrow> (string \<times> error option) outcome" where
  "Substitute u text params allowUnresolved =
     (case New text of
        Panics \<Rightarrow> Panics
      | Returns fstTmpl \<Rightarrow> replaceWithFastTemplate u fstTmpl params allowUnresolved)"

section \<open>RenderTemplateParams\<close>

text \<open>
  The Kubernetes objects of the file: an \<open>Application\<close> and an \<open>ApplicationSet\<close> both
  carry \<open>ObjectMeta\<close> and a \<open>Spec\<close>. Their Go declarations are not in this repository;
  the record holds the fields that util.go reads or writes. A nil slice is \<open>None\<close>, an
  empty one \<open>Some []\<close>; a missing key of a \<open>map[string]string\<close> is \<open>None\<close>.
\<close>

record ObjectMeta =
  Name :: string
  Finalizers :: "string list option"
  Annotations :: "string \<rightharpoonup> string"

record 'spec KubeObject =
  ObjectMeta :: ObjectMeta
  Spec :: 'spec

type_synonym 'spec Application = "'spec KubeObject"

record ApplicationSetSyncPolicy =
  PreserveResourcesOnDeletion :: bool

record ApplicationSetTemplateOptions =
  GotemplateEnabled :: bool

text \<open>
  A non-nil pointer: the address it holds and the object found there.
  \<open>RenderTemplateParams\<close> only reads through the pointer it is given.
\<close>

datatype 'a ref = Ref (addr: nat) (deref: 'a)

text \<open>
  The libraries that \<open>RenderTemplateParams\<close> calls are parameters: \<open>json.Marshal\<close> and
  \<open>json.Unmarshal\<close> at the type \<open>Application\<close>, the same two of sigs.k8s.io/yaml, the
  parse of a Go template (\<open>template.New("argocd-app").Option("missingkey=zero")\<close>
  with the sprig functions) and its execution into a buffer. Each returns the message of
  its error (\<open>Inl\<close>) or its result.
\<close>

record ('spec, 'tpl) library =
  jsonMarshal :: "'spec Application \<Rightarrow> string + string"
  jsonUnmarshal :: "string \<Rightarrow> string + 'spec Application"
  yamlMarshal :: "'spec Application \<Rightarrow> string + string"
  yamlUnmarshal :: "string \<Rightarrow> string + 'spec Application"
  templateParse :: "string \<Rightarrow> string + 'tpl"
  templateExecute :: "'tpl \<Rightarrow> (string \<rightharpoonup> string) \<Rightarrow> string + string"
  uni :: unicode

text \<open>\<open>replaceWithGoTemplate\<close> (lines 127 to 136).\<close>

definition replaceWithGoTemplate ::
  "('spec, 'tpl) library \<Rightarrow> 'tpl \<Rightarrow> (string \<rightharpoonup> string) \<Rightarrow> string \<times> error option" where
  "replaceWithGoTemplate lib goTemplate replaceMap =
     (case templateExecute lib goTemplate replaceMap of
        Inl err \<Rightarrow> ([], Some (TemplateError err))
      | Inr tplString \<Rightarrow> (tplString, None))"

text \<open>
  Lines 42 to 56: the branch taken when \<open>templateOptions\<close> is nil or \<open>GotemplateEnabled\<close>
  is false. \<open>Inl\<close> is the error of an early \<open>return nil, err\<close>, \<open>Inr\<close> the value of
  \<open>replacedTmpl\<close> at the end of the branch.
\<close>

definition renderFastTemplate ::
  "('spec, 'tpl) library \<Rightarrow> 'spec Application \<Rightarrow> (string \<rightharpoonup> string)
     \<Rightarrow> (error + 'spec Application) outcome" where
  "renderFastTemplate lib tmpl params =
     (case jsonMarshal lib tmpl of
        Inl err \<Rightarrow> Returns (Inl (JSONError err))
      | Inr tmplBytes \<Rightarrow>
          (case Substitute (uni lib) tmplBytes params True of
             Panics \<Rightarrow> Panics
           | Returns (replacedTmplStr, Some err) \<Rightarrow> Returns (Inl err)
           | Returns (replacedTmplStr, None) \<Rightarrow>
               (case jsonUnmarshal lib replacedTmplStr of
                  Inl err \<Rightarrow> Returns (Inl (JSONError err))
                | Inr replacedTmpl \<Rightarrow> Returns (Inr replacedTmpl))))"

text \<open>Lines 60 to 78: the branch taken when \<open>GotemplateEnabled\<close> is true.\<close>

definition renderGoTemplate ::
  "('spec, 'tpl) library \<Rightarrow> 'spec Application \<Rightarrow> (string \<rightharpoonup> string)
     \<Rightarrow> (error + 'spec Application) outcome" where
  "renderGoTemplate lib tmpl params =
     (case yamlMarshal lib tmpl of
        Inl err \<Rightarrow> Returns (Inl (YAMLError err))
      | Inr tmplBytes \<Rightarrow>
          (case templateParse lib tmplBytes of
             Inl err \<Rightarrow> Returns (Inl (TemplateError err))
           | Inr goTemplate \<Rightarrow>
               (case replaceWithGoTemplate lib goTemplate params of
                  (replacedTmplStr, Some err) \<Rightarrow> Returns (Inl err)
                | (replacedTmplStr, None) \<Rightarrow>
                    (case yamlUnmarshal lib replacedTmplStr of
                       Inl err \<Rightarrow> Returns (Inl (YAMLError err))
                     | Inr replacedTmpl \<Rightarrow> Returns (Inr replacedTmpl)))))"

text \<open>Lines 41 to 79: the test of \<open>templateOptions\<close> and its two branches.\<close>

definition substituted ::
  "('spec, 'tpl) library \<Rightarrow> 'spec Application \<Rightarrow> ApplicationSetTemplateOptions option
     \<Rightarrow> (string \<rightharpoonup> string) \<Rightarrow> (error + 'spec Application) outcome" where
  "substituted lib tmpl templateOptions params =
     (case templateOptions of
        None \<Rightarrow> renderFastTemplate lib tmpl params
      | Some opts \<Rightarrow>
          if \<not> GotemplateEnabled opts then renderFastTemplate lib tmpl params
          else renderGoTemplate lib tmpl params)"

text \<open>Lines 86 to 90: the finalizer added to \<open>replacedTmpl\<close>. The length of a nil slice
  is 0.\<close>

definition len :: "'a list option \<Rightarrow> nat" where
  "len xs = (case xs of None \<Rightarrow> 0 | Some ys \<Rightarrow> length ys)"

definition addFinalizer ::
  "ApplicationSetSyncPolicy option \<Rightarrow> 'spec Application \<Rightarrow> 'spec Application" where
  "addFinalizer syncPolicy replacedTmpl =
     (if (case syncPolicy of None \<Rightarrow> True | Some sp \<Rightarrow> \<not> PreserveResourcesOnDeletion sp) \<and>
         (Finalizers (ObjectMeta replacedTmpl) = None \<or> len (Finalizers (ObjectMeta replacedTmpl)) = 0)
      then replacedTmpl\<lparr>ObjectMeta := (ObjectMeta replacedTmpl)
             \<lparr>Finalizers := Some [''resources-finalizer.argocd.argoproj.io'']\<rparr>\<rparr>
      else replacedTmpl)"

text \<open>
  \<open>RenderTemplateParams\<close> (lines 29 to 93). The result is the pair the Go function
  returns, unless it panics. \<open>len(params) == 0\<close> holds for a nil map and for an empty
  one. \<open>new\<close> is the address of the variable \<open>replacedTmpl\<close>, which the last line
  returns.
\<close>

definition RenderTemplateParams ::
  "('spec, 'tpl) library \<Rightarrow> nat \<Rightarrow> 'spec Application ref option
     \<Rightarrow> ApplicationSetSyncPolicy option \<Rightarrow> ApplicationSetTemplateOptions option
     \<Rightarrow> (string \<rightharpoonup> string) \<Rightarrow> ('spec Application ref option \<times> error option) outcome" where
  "RenderTemplateParams lib new tmpl syncPolicy templateOptions params =
     (case tmpl of
        None \<Rightarrow> Returns (None, Some (Errorf ''application template is empty ''))
      | Some p \<Rightarrow>
          if dom params = {} then Returns (Some p, None)
          else
            (case substituted lib (deref p) templateOptions params of
               Panics \<Rightarrow> Panics
             | Returns (Inl err) \<Rightarrow> Returns (None, Some err)
             | Returns (Inr replacedTmpl) \<Rightarrow>
                 Returns (Some (Ref new (addFinalizer syncPolicy replacedTmpl)), None)))"

section \<open>invalidGenerators\<close>

text \<open>
  What \<open>json.Unmarshal\<close> builds for an \<open>interface{}\<close>: an object is the list of its
  members (keys distinct), an array the list of its elements. The text of a number is kept
  as it is.
\<close>

datatype json =
    JNull
  | JBool bool
  | JNumber string
  | JString string
  | JArray "json list"
  | JObject "(string \<times> json) list"

text \<open>
  A generator is a struct of optional slots (the declaration of
  \<open>ApplicationSetGenerator\<close> is not in this repository): the list of its fields as
  reflection shows them, each with the answers of \<open>CanInterface\<close> and, for the pointer it
  holds, of \<open>IsNil\<close>.
\<close>

record field =
  CanInterface :: bool
  IsNil :: bool

type_synonym ApplicationSetGenerator = "field list"

record ApplicationSetSpec =
  Generators :: "ApplicationSetGenerator list"

type_synonym ApplicationSet = "ApplicationSetSpec KubeObject"

text \<open>The warnings that \<open>addInvalidGeneratorNames\<close> logs, in the order of its
  five \<open>log.Warn\<close> calls.\<close>

datatype warning =
    CouldntUnmarshal string
  | CouldntGetSpec
  | CouldntGetGenerators
  | IndexOutOfRange nat nat
  | CouldntGetGenerator

text \<open>
  Parameters: \<open>jsonDecode\<close> is the decoding of a JSON text by encoding/json (\<open>None\<close> when
  the text is not valid JSON); \<open>rangeStart\<close> is the position at which the \<open>range\<close> over
  a Go map starts, which the language leaves open.
\<close>

record inspector =
  jsonDecode :: "string \<Rightarrow> json option"
  rangeStart :: "(string \<times> json) list \<Rightarrow> nat"

text \<open>The state the inspection changes: the map \<open>names\<close> (its keys; every value is
  \<open>true\<close>) and the log.\<close>

record inspection =
  names :: "string set"
  warnings :: "warning list"

definition Warn :: "warning \<Rightarrow> inspection \<Rightarrow> inspection" where
  "Warn w st = st\<lparr>warnings := warnings st @ [w]\<rparr>"

text \<open>
  \<open>json.Unmarshal([]byte(config), &vals)\<close> for a \<open>map[string]interface{}\<close> (the
  variable \<open>values\<close> of the source): \<open>None\<close> is an error. The empty text is rejected
  ("unexpected end of JSON input"); \<open>null\<close> leaves the map nil; a value that is not an
  object is a type error.
\<close>

definition Unmarshal_map :: "inspector \<Rightarrow> string \<Rightarrow> (string \<times> json) list option" where
  "Unmarshal_map env config =
     (if config = [] then None
      else
        (case jsonDecode env config of
           None \<Rightarrow> None
         | Some (JObject members) \<Rightarrow> Some members
         | Some JNull \<Rightarrow> Some []
         | Some _ \<Rightarrow> None))"

text \<open>Line 185: the annotation, the empty string when the key is missing.\<close>

definition lastAppliedConfiguration :: "ApplicationSet \<Rightarrow> string" where
  "lastAppliedConfiguration applicationSetInfo =
     (case Annotations (ObjectMeta applicationSetInfo)
             ''kubectl.kubernetes.io/last-applied-configuration'' of
        None \<Rightarrow> []
      | Some c \<Rightarrow> c)"

text \<open>\<open>addInvalidGeneratorNames\<close> (lines 183 to 219).\<close>

definition addInvalidGeneratorNames ::
  "inspector \<Rightarrow> inspection \<Rightarrow> ApplicationSet \<Rightarrow> nat \<Rightarrow> inspection" where
  "addInvalidGeneratorNames env st applicationSetInfo index =
     (let config = lastAppliedConfiguration applicationSetInfo
      in case Unmarshal_map env config of
           None \<Rightarrow> Warn (CouldntUnmarshal config) st
         | Some vals \<Rightarrow>
             (case map_of vals ''spec'' of
                Some (JObject spec) \<Rightarrow>
                  (case map_of spec ''generators'' of
                     Some (JArray generators) \<Rightarrow>
                       if index \<ge> length generators
                       then Warn (IndexOutOfRange index (length generators)) st
                       else
                         (case generators ! index of
                            JObject generator \<Rightarrow>
                              (case generator of
                                 [] \<Rightarrow> st
                               | _ # _ \<Rightarrow>
                                   st\<lparr>names := insert
                                     (fst (generator ! (rangeStart env generator mod length generator)))
                                     (names st)\<rparr>)
                          | _ \<Rightarrow> Warn CouldntGetGenerator st)
                   | _ \<Rightarrow> Warn CouldntGetGenerators st)
              | _ \<Rightarrow> Warn CouldntGetSpec st))"

text \<open>The inner loop of \<open>invalidGenerators\<close> (lines 164 to 174): the value of
  \<open>found\<close> after it.\<close>

fun found :: "field list \<Rightarrow> bool" where
  "found [] = False"
| "found (f # fs) =
     (if \<not> CanInterface f then found fs
      else if \<not> IsNil f then True
      else found fs)"

text \<open>The loop over \<open>applicationSetInfo.Spec.Generators\<close> (lines 162 to 179).\<close>

fun invalidGenerators_loop ::
  "inspector \<Rightarrow> ApplicationSet \<Rightarrow> nat \<Rightarrow> ApplicationSetGenerator list \<Rightarrow> bool \<times> inspection
     \<Rightarrow> bool \<times> inspection" where
  "invalidGenerators_loop env applicationSetInfo index [] (hasInvalidGenerators, st) =
     (hasInvalidGenerators, st)"
| "invalidGenerators_loop env applicationSetInfo index (generator # rest) (hasInvalidGenerators, st) =
     (if \<not> found generator
      then invalidGenerators_loop env applicationSetInfo (Suc index) rest
             (True, addInvalidGeneratorNames env st applicationSetInfo index)
      else invalidGenerators_loop env applicationSetInfo (Suc index) rest (hasInvalidGenerators, st))"

text \<open>\<open>invalidGenerators\<close> (lines 159 to 181): the flag, and the names with the log.\<close>

definition invalidGenerators :: "inspector \<Rightarrow> ApplicationSet \<Rightarrow> bool \<times> inspection" where
  "invalidGenerators env applicationSetInfo =
     invalidGenerators_loop env applicationSetInfo 0 (Generators (Spec applicationSetInfo))
       (False, \<lparr>names = {}, warnings = []\<rparr>)"

section \<open>The escaping substitutor: what one run writes\<close>

text \<open>
  A tag is unresolved when the test of line 105 holds: the trimmed tag is empty or is
  not a key of the map.
\<close>

definition unresolvedTag :: "unicode \<Rightarrow> (string \<rightharpoonup> string) \<Rightarrow> string \<Rightarrow> bool" where
  "unresolvedTag u replaceMap tag =
     (length (TrimSpace u tag) = 0 \<or> replaceMap (TrimSpace u tag) = None)"

text \<open>What the tag function appends to the buffer for a tag: the tag with its
  delimiters or nothing when it is unresolved, the escaped replacement otherwise.\<close>

definition written :: "unicode \<Rightarrow> (string \<rightharpoonup> string) \<Rightarrow> bool \<Rightarrow> string \<Rightarrow> string" where
  "written u replaceMap allowUnresolved tag =
     (case replaceMap (TrimSpace u tag) of
        None \<Rightarrow> if allowUnresolved then ''{{'' @ tag @ ''}}'' else []
      | Some replacement \<Rightarrow>
          if length (TrimSpace u tag) = 0 then (if allowUnresolved then ''{{'' @ tag @ ''}}'' else [])
          else appendQuotedWith u replacement)"

text \<open>What the tag function does to \<open>unresolvedErr\<close>.\<close>

definition noted :: "unicode \<Rightarrow> (string \<rightharpoonup> string) \<Rightarrow> bool \<Rightarrow> string \<Rightarrow> error option \<Rightarrow> error option" where
  "noted u replaceMap allowUnresolved tag e =
     (if \<not> allowUnresolved \<and> unresolvedTag u replaceMap tag
      then Some (Errorf (''failed to resolve {{'' @ tag @ ''}}'')) else e)"

text \<open>The output for text pieces \<open>txs\<close> with the pieces \<open>ps\<close> written between
  them.\<close>

fun weave :: "string list \<Rightarrow> string list \<Rightarrow> string" where
  "weave [] ps = []"
| "weave (tx # txs) [] = tx"
| "weave (tx # txs) (p # ps) = tx @ p @ weave txs ps"

text \<open>The output of a run on the template \<open>t\<close>.\<close>

definition rendered :: "unicode \<Rightarrow> (string \<rightharpoonup> string) \<Rightarrow> bool \<Rightarrow> Template \<Rightarrow> string" where
  "rendered u m a t =
     (if texts t = [] then template t else weave (texts t) (map (written u m a) (tags t)))"

text \<open>An instance of the Unicode parameters, for evaluating examples: every example
  below is ASCII text, on which none of the three is called.\<close>

definition ascii_only :: unicode where
  "ascii_only = \<lparr>TrimFunc_IsSpace = (\<lambda>s. s), TrimRightFunc_IsSpace = (\<lambda>s. s), quoteRun = (\<lambda>s. s)\<rparr>"

lemma slice_Quote: "slice (Quote u v) (Suc 0) (length (Quote u v) - Suc 0) = appendQuotedWith u v"
  by (simp add: slice_def Quote_def)

lemma tagFunc_eq:
  "tagFunc u m a tag st =
     st\<lparr>bb := bb st @ written u m a tag, unresolvedErr := noted u m a tag (unresolvedErr st)\<rparr>"
  by (simp add: tagFunc_def written_def noted_def unresolvedTag_def Write_def Let_def slice_Quote
      split: option.splits)

lemma ExecuteFunc_loop_eq:
  "(\<And>tg st. f tg st = st\<lparr>bb := bb st @ g tg, unresolvedErr := h tg (unresolvedErr st)\<rparr>) \<Longrightarrow>
   length txs = Suc (length tgs) \<Longrightarrow>
    ExecuteFunc_loop f txs tgs st =
      Returns \<lparr>bb = bb st @ weave txs (map g tgs), unresolvedErr = fold h tgs (unresolvedErr st)\<rparr>"
proof (induction f txs tgs st rule: ExecuteFunc_loop.induct)
  case (4 f tx v va tg tgs st)
  then show ?case by (simp add: Write_def)
qed (simp_all add: Write_def)

lemma weave_append:
  "length txs = length ps \<Longrightarrow>
     weave (txs @ rest) (ps @ qs) = concat (map2 (@) txs ps) @ weave rest qs"
  by (induction txs ps rule: list_induct2) simp_all

lemma Index_Some_split:
  "Index s sep = Some n \<Longrightarrow> take n s @ sep @ drop (n + length sep) s = s"
proof (induction s arbitrary: n)
  case Nil
  then show ?case by (simp split: if_splits)
next
  case (Cons c cs)
  show ?case
  proof (cases "prefix sep (c # cs)")
    case True
    with Cons.prems have "n = 0" by simp
    moreover from True obtain zs where "c # cs = sep @ zs" by (auto simp: prefix_def)
    ultimately show ?thesis by simp
  next
    case False
    with Cons.prems obtain m where "Index cs sep = Some m" "n = Suc m" by auto
    with Cons.IH show ?thesis by simp
  qed
qed

lemma Reset_loop_weave:
  "Reset_loop s txs tgs = Inr (txs', tgs') \<Longrightarrow> length txs = length tgs \<Longrightarrow>
     length txs' = Suc (length tgs') \<and>
     weave txs' (map (\<lambda>tg. ''{{'' @ tg @ ''}}'') tgs')
       = concat (map2 (@) txs (map (\<lambda>tg. ''{{'' @ tg @ ''}}'') tgs)) @ s"
proof (induction s txs tgs rule: Reset_loop.induct)
  case (1 s txs tgs)
  show ?case
  proof (cases "Index s startTag")
    case None
    with "1.prems"(1) have eq: "txs' = txs @ [s]" "tgs' = tgs"
      by (simp_all add: Reset_loop.simps [of s])
    from "1.prems"(2) weave_append [of txs "map (\<lambda>tg. ''{{'' @ tg @ ''}}'') tgs" "[s]" "[]"]
    show ?thesis by (simp add: eq)
  next
    case (Some n)
    define s1 where "s1 = drop (n + length startTag) s"
    show ?thesis
    proof (cases "Index s1 endTag")
      case None
      with Some "1.prems"(1) show ?thesis by (simp add: s1_def Reset_loop.simps [of s])
    next
      case k: (Some k)
      from Some k "1.prems"(1)
      have run: "Reset_loop (drop (k + length endTag) s1) (txs @ [take n s]) (tgs @ [take k s1])
                   = Inr (txs', tgs')"
        by (simp add: s1_def Reset_loop.simps [of s])
      from "1.prems"(2) have len: "length (txs @ [take n s]) = length (tgs @ [take k s1])"
        by simp
      note ih = "1.IH" [OF Some s1_def k run len]
      from Index_Some_split [OF Some] have s: "s = take n s @ ''{{'' @ s1"
        by (simp add: s1_def startTag_def)
      from Index_Some_split [OF k] have s1: "s1 = take k s1 @ ''}}'' @ drop (k + length endTag) s1"
        by (simp add: endTag_def)
      have "concat (map2 (@) (txs @ [take n s]) (map (\<lambda>tg. ''{{'' @ tg @ ''}}'') (tgs @ [take k s1])))
              @ drop (k + length endTag) s1
            = concat (map2 (@) txs (map (\<lambda>tg. ''{{'' @ tg @ ''}}'') tgs)) @ s"
        using "1.prems"(2) s s1 by simp
      with ih show ?thesis by simp
    qed
  qed
qed

lemma New_shape:
  assumes "New s = Returns t"
  shows "template t = s \<and>
         (texts t = [] \<and> tags t = [] \<or>
          length (texts t) = Suc (length (tags t)) \<and>
          weave (texts t) (map (\<lambda>tg. ''{{'' @ tg @ ''}}'') (tags t)) = s)"
proof (cases "Index s startTag")
  case None
  with assms show ?thesis by (auto simp: New_def NewTemplate_def)
next
  case (Some n)
  with assms obtain txs tgs where r: "Reset_loop s [] [] = Inr (txs, tgs)"
    and t: "t = \<lparr>template = s, texts = txs, tags = tgs\<rparr>"
    by (auto simp: New_def NewTemplate_def split: sum.splits)
  from Reset_loop_weave [OF r] t show ?thesis by simp
qed

lemma fold_noted_True: "fold (noted u m True) tgs e = e"
  by (induction tgs arbitrary: e) (simp_all add: noted_def)

lemma fold_noted_False:
  "fold (noted u m False) tgs e =
     (if filter (unresolvedTag u m) tgs = [] then e
      else Some (Errorf (''failed to resolve {{'' @ last (filter (unresolvedTag u m) tgs) @ ''}}'')))"
proof (induction tgs rule: rev_induct)
  case Nil
  show ?case by simp
next
  case (snoc x xs)
  show ?case
  proof (cases "unresolvedTag u m x")
    case True
    then show ?thesis by (simp add: noted_def)
  next
    case False
    then have "fold (noted u m False) (xs @ [x]) e = fold (noted u m False) xs e"
      by (simp add: noted_def)
    with False snoc.IH show ?thesis by simp
  qed
qed

lemma ExecuteFunc_New:
  assumes "New s = Returns t"
  shows "ExecuteFunc t (tagFunc u m a) \<lparr>bb = [], unresolvedErr = None\<rparr> =
           Returns \<lparr>bb = rendered u m a t, unresolvedErr = fold (noted u m a) (tags t) None\<rparr>"
proof (cases "texts t = []")
  case True
  with New_shape [OF assms] show ?thesis
    by (simp add: ExecuteFunc_def rendered_def Write_def)
next
  case False
  with New_shape [OF assms] have len: "length (texts t) = Suc (length (tags t))" by simp
  from False ExecuteFunc_loop_eq [where f = "tagFunc u m a" and g = "written u m a" and h = "noted u m a", OF tagFunc_eq len]
  show ?thesis by (simp add: ExecuteFunc_def rendered_def)
qed

lemma replaceWithFastTemplate_True:
  "New s = Returns t \<Longrightarrow> replaceWithFastTemplate u t m True = Returns (rendered u m True t, None)"
  by (simp add: replaceWithFastTemplate_def ExecuteFunc_New fold_noted_True)

lemma replaceWithFastTemplate_False:
  "New s = Returns t \<Longrightarrow>
     replaceWithFastTemplate u t m False =
       (if filter (unresolvedTag u m) (tags t) = [] then Returns (rendered u m False t, None)
        else Returns ([], Some (Errorf (''failed to resolve {{''
                       @ last (filter (unresolvedTag u m) (tags t)) @ ''}}''))))"
  by (simp add: replaceWithFastTemplate_def ExecuteFunc_New fold_noted_False)

lemma written_unresolved:
  "unresolvedTag u m tag \<Longrightarrow> written u m True tag = ''{{'' @ tag @ ''}}''"
  by (auto simp: written_def unresolvedTag_def split: option.splits)

lemma rendered_all_unresolved:
  assumes "New s = Returns t" and "\<forall>tag \<in> set (tags t). unresolvedTag u m tag"
  shows "rendered u m True t = s"
proof (cases "texts t = []")
  case True
  with New_shape [OF assms(1)] show ?thesis by (simp add: rendered_def)
next
  case False
  from assms(2) have eq: "map (written u m True) (tags t) = map (\<lambda>tg. ''{{'' @ tg @ ''}}'') (tags t)"
    by (simp add: written_unresolved)
  from False New_shape [OF assms(1)]
  have "weave (texts t) (map (\<lambda>tg. ''{{'' @ tg @ ''}}'') (tags t)) = s" by simp
  with False show ?thesis unfolding rendered_def eq by simp
qed

section \<open>Unresolved tokens when they are allowed\<close>

text \<open>
  The output of one run with \<open>allowUnresolved = true\<close>, computed on the text itself: the
  scan of \<open>Reset\<close> and the writes of \<open>ExecuteFunc\<close> in one recursion. \<open>None\<close> is the panic
  of \<open>New\<close> on a start tag that is never closed.
\<close>

function subst :: "unicode \<Rightarrow> (string \<rightharpoonup> string) \<Rightarrow> string \<Rightarrow> string option" where
  "subst u m s =
     (case Index s startTag of
        None \<Rightarrow> Some s
      | Some n \<Rightarrow>
          (let s1 = drop (n + length startTag) s in
           case Index s1 endTag of
             None \<Rightarrow> None
           | Some k \<Rightarrow>
               map_option (\<lambda>r. take n s @ written u m True (take k s1) @ r)
                 (subst u m (drop (k + length endTag) s1))))"
  by pat_completeness auto
termination
proof (relation "measure (\<lambda>(u, m, s). length s)", goal_cases)
  case 1
  show ?case by simp
next
  case (2 u m s n s1 k)
  from Index_Some_le [OF 2(1)] 2(2) show ?case
    by (simp add: startTag_def endTag_def)
qed

declare subst.simps [simp del]

lemma Reset_loop_subst:
  "Reset_loop s txs tgs = Inr (txs', tgs') \<Longrightarrow> length txs = length tgs \<Longrightarrow>
     \<exists>r. subst u m s = Some r \<and>
         weave txs' (map (written u m True) tgs')
           = concat (map2 (@) txs (map (written u m True) tgs)) @ r"
proof (induction s txs tgs rule: Reset_loop.induct)
  case (1 s txs tgs)
  show ?case
  proof (cases "Index s startTag")
    case None
    with "1.prems"(1) have eq: "txs' = txs @ [s]" "tgs' = tgs"
      by (simp_all add: Reset_loop.simps [of s])
    from None have "subst u m s = Some s" by (simp add: subst.simps [of u m s])
    with "1.prems"(2) weave_append [of txs "map (written u m True) tgs" "[s]" "[]"]
    show ?thesis by (simp add: eq)
  next
    case (Some n)
    define s1 where "s1 = drop (n + length startTag) s"
    show ?thesis
    proof (cases "Index s1 endTag")
      case None
      with Some "1.prems"(1) show ?thesis by (simp add: s1_def Reset_loop.simps [of s])
    next
      case k: (Some k)
      from Some k "1.prems"(1)
      have run: "Reset_loop (drop (k + length endTag) s1) (txs @ [take n s]) (tgs @ [take k s1])
                   = Inr (txs', tgs')"
        by (simp add: s1_def Reset_loop.simps [of s])
      from "1.prems"(2) have len: "length (txs @ [take n s]) = length (tgs @ [take k s1])"
        by simp
      from "1.IH" [OF Some s1_def k run len]
      obtain r where r: "subst u m (drop (k + length endTag) s1) = Some r"
        and w: "weave txs' (map (written u m True) tgs')
           = concat (map2 (@) (txs @ [take n s]) (map (written u m True) (tgs @ [take k s1]))) @ r"
        by blast
      from Some k r have "subst u m s = Some (take n s @ written u m True (take k s1) @ r)"
        by (simp add: subst.simps [of u m s] s1_def)
      with w "1.prems"(2) show ?thesis by simp
    qed
  qed
qed

lemma Reset_loop_subst_None:
  "Reset_loop s txs tgs = Inl e \<Longrightarrow> subst u m s = None"
proof (induction s txs tgs rule: Reset_loop.induct)
  case (1 s txs tgs)
  show ?case
  proof (cases "Index s startTag")
    case None
    with "1.prems" show ?thesis by (simp add: Reset_loop.simps [of s])
  next
    case (Some n)
    define s1 where "s1 = drop (n + length startTag) s"
    show ?thesis
    proof (cases "Index s1 endTag")
      case None
      with Some show ?thesis by (simp add: s1_def subst.simps [of u m s])
    next
      case k: (Some k)
      from Some k "1.prems"
      have "Reset_loop (drop (k + length endTag) s1) (txs @ [take n s]) (tgs @ [take k s1]) = Inl e"
        by (simp add: s1_def Reset_loop.simps [of s])
      from "1.IH" [OF Some s1_def k this] Some k show ?thesis
        by (simp add: subst.simps [of u m s] s1_def)
    qed
  qed
qed

lemma Substitute_subst:
  "Substitute u s m True = (case subst u m s of None \<Rightarrow> Panics | Some r \<Rightarrow> Returns (r, None))"
proof (cases "Index s startTag")
  case None
  then have "New s = Returns \<lparr>template = s, texts = [], tags = []\<rparr>"
    by (simp add: New_def NewTemplate_def)
  from replaceWithFastTemplate_True [OF this] None show ?thesis
    by (simp add: Substitute_def New_def NewTemplate_def rendered_def subst.simps [of u m s])
next
  case (Some n)
  show ?thesis
  proof (cases "Reset_loop s [] []")
    case (Inl e)
    with Some Reset_loop_subst_None [OF Inl] show ?thesis
      by (simp add: Substitute_def New_def NewTemplate_def)
  next
    case (Inr p)
    obtain txs tgs where p: "p = (txs, tgs)" by (cases p)
    with Inr Some have n: "New s = Returns \<lparr>template = s, texts = txs, tags = tgs\<rparr>"
      by (simp add: New_def NewTemplate_def)
    from Reset_loop_weave [OF Inr [unfolded p]] have "txs \<noteq> []" by auto
    from Reset_loop_subst [OF Inr [unfolded p], of u m]
    obtain r where "subst u m s = Some r" "weave txs (map (written u m True) tgs) = r" by auto
    with replaceWithFastTemplate_True [OF n] \<open>txs \<noteq> []\<close> n show ?thesis
      by (simp add: Substitute_def rendered_def)
  qed
qed

text \<open>A text in which no start tag begins, even when an opening brace follows it.\<close>

definition clean :: "string \<Rightarrow> bool" where
  "clean y = (Index (y @ ''{'') startTag = None)"

lemma prefix_within:
  assumes "length sep \<le> length A" and "prefix sep (A @ z)"
  shows "prefix sep A"
proof -
  from assms(2) obtain zs where "A @ z = sep @ zs" by (auto simp: prefix_def)
  then have "take (length sep) (A @ z) = sep" by simp
  with assms(1) have "take (length sep) A = sep" by simp
  then have "A = sep @ drop (length sep) A" by (metis append_take_drop_id)
  then show ?thesis by (rule prefixI)
qed

lemma Index_keep:
  "Index s sep = Some n \<Longrightarrow> Index (take n s @ sep @ z) sep = Some n"
proof (induction s arbitrary: n)
  case Nil
  then show ?case by (cases z) (simp_all split: if_splits)
next
  case (Cons c cs)
  show ?case
  proof (cases "prefix sep (c # cs)")
    case True
    with Cons.prems have "n = 0" by simp
    moreover have "Index (sep @ z) sep = Some 0"
    proof (cases "sep @ z")
      case Nil
      then show ?thesis by simp
    next
      case (Cons a list)
      have "prefix sep (sep @ z)" by simp
      with Cons show ?thesis by simp
    qed
    ultimately show ?thesis by simp
  next
    case False
    with Cons.prems obtain k where k: "Index cs sep = Some k" "n = Suc k" by auto
    from Index_Some_split [OF k(1)] have cs: "cs = take k cs @ sep @ drop (k + length sep) cs"
      by simp
    have "\<not> prefix sep (c # take k cs @ sep @ z)"
    proof
      assume "prefix sep (c # take k cs @ sep @ z)"
      then have "prefix sep ((c # take k cs @ sep) @ z)" by simp
      moreover have "length sep \<le> length (c # take k cs @ sep)" by simp
      ultimately have "prefix sep (c # take k cs @ sep)"
        by (rule prefix_within [rotated])
      then have "prefix sep ((c # take k cs @ sep) @ drop (k + length sep) cs)"
        by (rule prefix_prefix)
      with cs False show False by simp
    qed
    with k Cons.IH [OF k(1)] show ?thesis by simp
  qed
qed

lemma clean_Nil: "clean []"
  by (simp add: clean_def startTag_def)

lemma clean_Cons:
  "clean (c # cs) \<longleftrightarrow> \<not> (c = CHR ''{'' \<and> (case cs of [] \<Rightarrow> True | d # _ \<Rightarrow> d = CHR ''{'')) \<and> clean cs"
  by (cases cs) (auto simp: clean_def startTag_def)

lemma Index_clean_append:
  "clean y \<Longrightarrow> Index (y @ z) startTag = map_option ((+) (length y)) (Index z startTag)"
proof (induction y)
  case Nil
  show ?case by (simp add: option.map_ident)
next
  case (Cons c cs)
  from Cons.prems have cs: "clean cs"
    and c: "\<not> (c = CHR ''{'' \<and> (case cs of [] \<Rightarrow> True | d # _ \<Rightarrow> d = CHR ''{''))"
    by (simp_all add: clean_Cons)
  have "\<not> prefix startTag (c # cs @ z)"
  proof (cases cs)
    case Nil
    with c show ?thesis by (cases z) (simp_all add: startTag_def)
  next
    case (Cons d ds)
    with c show ?thesis by (auto simp: startTag_def)
  qed
  with Cons.IH [OF cs] show ?case
    by (simp add: option.map_comp comp_def)
qed

lemma clean_take:
  "Index s startTag = Some n \<Longrightarrow> clean (take n s)"
proof (induction s arbitrary: n)
  case Nil
  then show ?case by (simp add: clean_Nil)
next
  case (Cons c cs)
  show ?case
  proof (cases "prefix startTag (c # cs)")
    case True
    with Cons.prems show ?thesis by (simp add: clean_Nil)
  next
    case False
    with Cons.prems obtain k where k: "Index cs startTag = Some k" "n = Suc k" by auto
    from Cons.IH [OF k(1)] have ih: "clean (take k cs)" .
    have "\<not> (c = CHR ''{'' \<and> (case take k cs of [] \<Rightarrow> True | d # _ \<Rightarrow> d = CHR ''{''))"
    proof (cases k)
      case 0
      with k(1) have "prefix startTag cs" by (cases cs) (auto split: if_splits simp: startTag_def)
      with False show ?thesis by (cases cs) (auto simp: startTag_def 0)
    next
      case (Suc j)
      with k(1) have "cs \<noteq> []" by (auto split: if_splits)
      then obtain d ds where "cs = d # ds" by (cases cs) auto
      with False Suc show ?thesis by (auto simp: startTag_def)
    qed
    with ih k(2) show ?thesis by (simp add: clean_Cons)
  qed
qed

lemma clean_no_brace: "CHR ''{'' \<notin> set v \<Longrightarrow> clean v"
  by (induction v) (auto simp: clean_Nil clean_Cons)

lemma clean_append: "clean x \<Longrightarrow> CHR ''{'' \<notin> set v \<Longrightarrow> clean (x @ v)"
proof -
  assume x: "clean x" and v: "CHR ''{'' \<notin> set v"
  from clean_no_brace [OF v] have "Index (v @ ''{'') startTag = None" by (simp add: clean_def)
  with Index_clean_append [OF x, of "v @ ''{''"] show ?thesis by (simp add: clean_def)
qed

lemma subst_clean_prefix:
  assumes "clean y"
  shows "subst u m (y @ z) = map_option ((@) y) (subst u m z)"
proof (cases "Index z startTag")
  case None
  with Index_clean_append [OF assms, of z] show ?thesis
    by (simp add: subst.simps [of u m z] subst.simps [of u m "y @ z"])
next
  case (Some p)
  with Index_clean_append [OF assms, of z]
  have i: "Index (y @ z) startTag = Some (length y + p)" by simp
  show ?thesis
    by (simp add: subst.simps [of u m z] subst.simps [of u m "y @ z"] i Some Let_def
        option.map_comp comp_def split: option.splits)
qed

lemma written_resolved_no_brace:
  assumes "\<forall>k v. m k = Some v \<longrightarrow> CHR ''{'' \<notin> set (appendQuotedWith u v)"
    and "\<not> unresolvedTag u m g"
  shows "CHR ''{'' \<notin> set (written u m True g)"
  using assms by (auto simp: written_def unresolvedTag_def split: option.splits)

lemma subst_idem:
  "\<forall>k v. m k = Some v \<longrightarrow> CHR ''{'' \<notin> set (appendQuotedWith u v) \<Longrightarrow>
     subst u m s = Some r \<Longrightarrow> subst u m r = Some r"
proof (induction u m s arbitrary: r rule: subst.induct)
  case (1 u m s)
  note nb = "1.prems"(1)
  show ?case
  proof (cases "Index s startTag")
    case None
    with "1.prems"(2) have "r = s" by (simp add: subst.simps [of u m s])
    with "1.prems"(2) show ?thesis by simp
  next
    case (Some n)
    define s1 where "s1 = drop (n + length startTag) s"
    show ?thesis
    proof (cases "Index s1 endTag")
      case None
      with Some "1.prems"(2) show ?thesis by (simp add: subst.simps [of u m s] s1_def)
    next
      case k: (Some k)
      define g where "g = take k s1"
      from Some k "1.prems"(2) obtain r' where
        r': "subst u m (drop (k + length endTag) s1) = Some r'"
        and r: "r = take n s @ written u m True g @ r'"
        by (auto simp: subst.simps [of u m s] s1_def g_def)
      from "1.IH" [OF Some s1_def k nb r']
      have ih: "subst u m r' = Some r'" .
      from Index_Some_le [OF k] have lg: "length g = k" by (simp add: g_def endTag_def)
      from Index_Some_le [OF Some] have ln: "length (take n s) = n" by simp
      show ?thesis
      proof (cases "unresolvedTag u m g")
        case True
        then have w: "written u m True g = ''{{'' @ g @ ''}}''" by (rule written_unresolved)
        define rest where "rest = drop (n + length startTag) r"
        from Index_keep [OF Some, of "g @ ''}}'' @ r'"]
        have i1: "Index r startTag = Some n" by (simp add: r w startTag_def)
        from ln have d1: "rest = g @ ''}}'' @ r'"
          by (simp add: rest_def r w startTag_def)
        from Index_keep [OF k, of r']
        have i2: "Index rest endTag = Some k" by (simp add: d1 g_def endTag_def)
        from ln have t1: "take n r = take n s" by (simp add: r)
        from lg have t2: "take k rest = g"
          and d2: "drop (k + length endTag) rest = r'"
          by (simp_all add: d1 endTag_def)
        have "subst u m r =
            map_option (\<lambda>q. take n r @ written u m True (take k rest) @ q)
              (subst u m (drop (k + length endTag) rest))"
          unfolding rest_def using i1 i2 [unfolded rest_def]
          by (simp add: subst.simps [of u m r] Let_def)
        then show ?thesis unfolding t1 t2 d2 ih by (simp add: r)
      next
        case False
        from written_resolved_no_brace [OF nb False]
        have "clean (take n s @ written u m True g)"
          by (intro clean_append clean_take [OF Some])
        from subst_clean_prefix [OF this, of u m r'] show ?thesis
          by (simp add: r ih)
      qed
    qed
  qed
qed

text \<open>
  C5. With \<open>allowUnresolved = true\<close>, the tag function writes an unresolved tag back
  between its delimiters, untrimmed; the output of a run is the text pieces with, for
  each tag, either that or the escaped replacement. For a template whose tags are all
  unresolved the output is the template text itself. A second run over the output, with
  the same map, returns the same text when all the tags are unresolved, and also when no
  value of the map, once escaped, holds an opening brace.
\<close>

theorem unresolved_tokens_written_back:
  assumes "New s = Returns t"
  shows "(\<forall>tag st. unresolvedTag u m tag \<longrightarrow>
            tagFunc u m True tag st = Write (''{{'' @ tag @ ''}}'') st) \<and>
         replaceWithFastTemplate u t m True = Returns (rendered u m True t, None) \<and>
         (\<forall>tag \<in> set (tags t). unresolvedTag u m tag \<longrightarrow>
            written u m True tag = ''{{'' @ tag @ ''}}'') \<and>
         ((\<forall>tag \<in> set (tags t). unresolvedTag u m tag) \<longrightarrow>
            Substitute u s m True = Returns (s, None)) \<and>
         ((\<forall>tag \<in> set (tags t). unresolvedTag u m tag) \<or>
          (\<forall>k v. m k = Some v \<longrightarrow> CHR ''{'' \<notin> set (appendQuotedWith u v)) \<longrightarrow>
            (\<exists>out. Substitute u s m True = Returns (out, None) \<and>
                   Substitute u out m True = Returns (out, None)))"
proof (intro conjI allI impI ballI)
  fix tag st assume "unresolvedTag u m tag"
  then show "tagFunc u m True tag st = Write (''{{'' @ tag @ ''}}'') st"
    by (simp add: tagFunc_eq written_unresolved noted_def Write_def)
next
  show "replaceWithFastTemplate u t m True = Returns (rendered u m True t, None)"
    by (rule replaceWithFastTemplate_True [OF assms])
next
  fix tag assume "unresolvedTag u m tag"
  then show "written u m True tag = ''{{'' @ tag @ ''}}''" by (rule written_unresolved)
next
  assume all: "\<forall>tag \<in> set (tags t). unresolvedTag u m tag"
  show "Substitute u s m True = Returns (s, None)"
    by (simp add: Substitute_def assms replaceWithFastTemplate_True [OF assms]
        rendered_all_unresolved [OF assms all])
next
  assume h: "(\<forall>tag \<in> set (tags t). unresolvedTag u m tag) \<or>
          (\<forall>k v. m k = Some v \<longrightarrow> CHR ''{'' \<notin> set (appendQuotedWith u v))"
  have run: "Substitute u s m True = Returns (rendered u m True t, None)"
    by (simp add: Substitute_def assms replaceWithFastTemplate_True [OF assms])
  from h show "\<exists>out. Substitute u s m True = Returns (out, None) \<and>
                   Substitute u out m True = Returns (out, None)"
  proof
    assume all: "\<forall>tag \<in> set (tags t). unresolvedTag u m tag"
    from run rendered_all_unresolved [OF assms all] show ?thesis by simp
  next
    assume nb: "\<forall>k v. m k = Some v \<longrightarrow> CHR ''{'' \<notin> set (appendQuotedWith u v)"
    from run have "subst u m s = Some (rendered u m True t)"
      by (simp add: Substitute_subst split: option.splits)
    from subst_idem [OF nb this] run show ?thesis by (simp add: Substitute_subst)
  qed
qed

lemma ascii_TrimSpace_simps:
  "TrimSpace u ''unknown'' = ''unknown''" "TrimSpace u '' y '' = ''y''"
  "TrimSpace u ''x'' = ''x''" "TrimSpace u ''y'' = ''y''" "TrimSpace u '' '' = []"
  by (simp_all add: TrimSpace_def asciiSpace_def isASCII_def RuneSelf_def)

theorem unresolved_tokens_written_back_witness:
  "tagFunc ascii_only [''y'' \<mapsto> ''v''] True ''unknown'' \<lparr>bb = ''a'', unresolvedErr = None\<rparr> =
     \<lparr>bb = ''a{{unknown}}'', unresolvedErr = None\<rparr> \<and>
   Substitute ascii_only ''a{{unknown}}b{{ }}'' [''y'' \<mapsto> ''v''] True =
     Returns (''a{{unknown}}b{{ }}'', None) \<and>
   Substitute ascii_only ''{{ y }}-{{unknown}}'' [''y'' \<mapsto> ''v''] True =
     Returns (''v-{{unknown}}'', None) \<and>
   Substitute ascii_only ''v-{{unknown}}'' [''y'' \<mapsto> ''v''] True =
     Returns (''v-{{unknown}}'', None)"
proof -
  let ?t = "\<lparr>template = ''a{{unknown}}b{{ }}'', texts = [''a'', ''b'', []],
            tags = [''unknown'', '' '']\<rparr>"
  let ?m = "[''y'' \<mapsto> ''v'']"
  have n: "New ''a{{unknown}}b{{ }}'' = Returns ?t"
    by (simp add: New_def NewTemplate_def Reset_loop.simps startTag_def endTag_def)
  have un: "unresolvedTag ascii_only ?m ''unknown''" "unresolvedTag ascii_only ?m '' ''"
    by (simp_all add: unresolvedTag_def ascii_TrimSpace_simps)
  then have all: "\<forall>tag \<in> set (tags ?t). unresolvedTag ascii_only ?m tag" by simp
  let ?t2 = "\<lparr>template = ''{{ y }}-{{unknown}}'', texts = [[], ''-'', []],
             tags = ['' y '', ''unknown'']\<rparr>"
  have n2: "New ''{{ y }}-{{unknown}}'' = Returns ?t2"
    by (simp add: New_def NewTemplate_def Reset_loop.simps startTag_def endTag_def)
  have r2: "rendered ascii_only ?m True ?t2 = ''v-{{unknown}}''"
    by (simp add: rendered_def written_def ascii_TrimSpace_simps isASCII_def RuneSelf_def
        appendEscapedRune_def)
  have nb: "\<forall>k v. ?m k = Some v \<longrightarrow> CHR ''{'' \<notin> set (appendQuotedWith ascii_only v)"
    by (simp add: isASCII_def RuneSelf_def appendEscapedRune_def)
  note a = unresolved_tokens_written_back [OF n, of ascii_only ?m]
  note b = unresolved_tokens_written_back [OF n2, of ascii_only ?m]
  from a un(1) have 1: "tagFunc ascii_only ?m True ''unknown'' \<lparr>bb = ''a'', unresolvedErr = None\<rparr> =
     \<lparr>bb = ''a{{unknown}}'', unresolvedErr = None\<rparr>"
    by (simp add: Write_def)
  from a all have 2: "Substitute ascii_only ''a{{unknown}}b{{ }}'' ?m True =
      Returns (''a{{unknown}}b{{ }}'', None)"
    by (elim conjE) simp
  from b r2 have 3: "Substitute ascii_only ''{{ y }}-{{unknown}}'' ?m True =
      Returns (''v-{{unknown}}'', None)"
    by (simp add: Substitute_def n2)
  from b nb have "\<exists>out. Substitute ascii_only ''{{ y }}-{{unknown}}'' ?m True = Returns (out, None) \<and>
      Substitute ascii_only out ?m True = Returns (out, None)"
    by (elim conjE) simp
  with 3 have 4: "Substitute ascii_only ''v-{{unknown}}'' ?m True = Returns (''v-{{unknown}}'', None)"
    by auto
  from 1 2 3 4 show ?thesis by simp
qed

text \<open>
  A value of the map that itself spells a token is substituted by the second run: with
  \<open>x \<mapsto> {{y}}\<close> and \<open>y \<mapsto> v\<close>, the template \<open>{{unknown}}-{{x}}\<close> gives
  \<open>{{unknown}}-{{y}}\<close>, and a second run over that gives \<open>{{unknown}}-v\<close>.
\<close>

theorem second_pass_substitutes_again:
  "Substitute ascii_only ''{{unknown}}-{{x}}'' [''x'' \<mapsto> ''{{y}}'', ''y'' \<mapsto> ''v''] True =
     Returns (''{{unknown}}-{{y}}'', None) \<and>
   Substitute ascii_only ''{{unknown}}-{{y}}'' [''x'' \<mapsto> ''{{y}}'', ''y'' \<mapsto> ''v''] True =
     Returns (''{{unknown}}-v'', None) \<and>
   ''{{unknown}}-v'' \<noteq> ''{{unknown}}-{{y}}''"
  by (simp add: Substitute_subst subst.simps startTag_def endTag_def written_def
      ascii_TrimSpace_simps isASCII_def RuneSelf_def appendEscapedRune_def)

section \<open>Unresolved tokens when they are not allowed\<close>

text \<open>
  C8. With \<open>allowUnresolved = false\<close>, a template that holds an unresolved tag makes
  \<open>replaceWithFastTemplate\<close> return the empty string together with the error
  "failed to resolve" naming an unresolved tag of the template.
\<close>

theorem unresolved_token_fails:
  assumes "New s = Returns t" and "\<exists>tag \<in> set (tags t). unresolvedTag u m tag"
  shows "\<exists>tag \<in> set (tags t). unresolvedTag u m tag \<and>
           replaceWithFastTemplate u t m False =
             Returns ([], Some (Errorf (''failed to resolve {{'' @ tag @ ''}}''))) \<and>
           Substitute u s m False =
             Returns ([], Some (Errorf (''failed to resolve {{'' @ tag @ ''}}'')))"
proof -
  let ?us = "filter (unresolvedTag u m) (tags t)"
  from assms(2) have ne: "?us \<noteq> []" by (auto simp: filter_empty_conv)
  then have "last ?us \<in> set ?us" by (rule last_in_set)
  then have "last ?us \<in> set (tags t)" "unresolvedTag u m (last ?us)" by simp_all
  moreover from ne have "replaceWithFastTemplate u t m False =
      Returns ([], Some (Errorf (''failed to resolve {{'' @ last ?us @ ''}}'')))"
    by (simp add: replaceWithFastTemplate_False [OF assms(1)])
  ultimately show ?thesis by (auto simp: Substitute_def assms(1))
qed

theorem unresolved_token_fails_witness:
  "Substitute ascii_only ''deploy-{{cluster}}-{{ env }}'' [''cluster'' \<mapsto> ''east''] False =
     Returns ([], Some (Errorf ''failed to resolve {{ env }}''))"
proof -
  let ?s = "''deploy-{{cluster}}-{{ env }}''"
  let ?t = "\<lparr>template = ?s, texts = [''deploy-'', ''-'', ''''], tags = [''cluster'', '' env '']\<rparr>"
  let ?m = "[''cluster'' \<mapsto> ''east'']"
  have n: "New ?s = Returns ?t"
    by (simp add: New_def NewTemplate_def Reset_loop.simps startTag_def endTag_def)
  have un: "unresolvedTag ascii_only ?m '' env ''" "\<not> unresolvedTag ascii_only ?m ''cluster''"
    by (simp_all add: unresolvedTag_def TrimSpace_def asciiSpace_def isASCII_def RuneSelf_def)
  then have "\<exists>tag \<in> set (tags ?t). unresolvedTag ascii_only ?m tag" by simp
  from unresolved_token_fails [OF n this] un show ?thesis by auto
qed

text \<open>
  C10. With \<open>allowUnresolved = false\<close> the scan does not stop at an unresolved tag: the
  buffer after the run holds every text piece and the escaped replacement of every
  resolved tag, nothing for an unresolved one, and \<open>unresolvedErr\<close> names the last
  unresolved tag in scan order; \<open>replaceWithFastTemplate\<close> then drops the buffer and
  returns that error.
\<close>

theorem last_unresolved_token_reported:
  assumes "New s = Returns t" and "filter (unresolvedTag u m) (tags t) \<noteq> []"
  shows "ExecuteFunc t (tagFunc u m False) \<lparr>bb = [], unresolvedErr = None\<rparr> =
           Returns \<lparr>bb = weave (texts t) (map (written u m False) (tags t)),
                    unresolvedErr = Some (Errorf (''failed to resolve {{''
                      @ last (filter (unresolvedTag u m) (tags t)) @ ''}}''))\<rparr> \<and>
         replaceWithFastTemplate u t m False =
           Returns ([], Some (Errorf (''failed to resolve {{''
                      @ last (filter (unresolvedTag u m) (tags t)) @ ''}}''))) \<and>
         (\<forall>tag. unresolvedTag u m tag \<longrightarrow> written u m False tag = []) \<and>
         (\<forall>tag v. \<not> unresolvedTag u m tag \<longrightarrow> m (TrimSpace u tag) = Some v \<longrightarrow>
                   written u m False tag = appendQuotedWith u v)"
proof -
  from assms(2) have "tags t \<noteq> []" by auto
  with New_shape [OF assms(1)] have "texts t \<noteq> []" by auto
  then have "rendered u m False t = weave (texts t) (map (written u m False) (tags t))"
    by (simp add: rendered_def)
  with assms(2) show ?thesis
    by (auto simp: ExecuteFunc_New [OF assms(1)] fold_noted_False
        replaceWithFastTemplate_False [OF assms(1)] written_def unresolvedTag_def
        split: option.splits)
qed

theorem last_unresolved_token_reported_witness:
  "ExecuteFunc
     \<lparr>template = ''{{a}}1{{x}}2{{b}}3{{x}}'', texts = ['''', ''1'', ''2'', ''3'', ''''],
        tags = [''a'', ''x'', ''b'', ''x'']\<rparr>
     (tagFunc ascii_only [''x'' \<mapsto> ''X''] False) \<lparr>bb = [], unresolvedErr = None\<rparr> =
     Returns \<lparr>bb = ''1X23X'', unresolvedErr = Some (Errorf ''failed to resolve {{b}}'')\<rparr> \<and>
   replaceWithFastTemplate ascii_only
     \<lparr>template = ''{{a}}1{{x}}2{{b}}3{{x}}'', texts = ['''', ''1'', ''2'', ''3'', ''''],
        tags = [''a'', ''x'', ''b'', ''x'']\<rparr>
     [''x'' \<mapsto> ''X''] False = Returns ([], Some (Errorf ''failed to resolve {{b}}''))"
proof -
  let ?s = "''{{a}}1{{x}}2{{b}}3{{x}}''"
  let ?t = "\<lparr>template = ?s, texts = ['''', ''1'', ''2'', ''3'', ''''], tags = [''a'', ''x'', ''b'', ''x'']\<rparr>"
  let ?m = "[''x'' \<mapsto> ''X'']"
  have n: "New ?s = Returns ?t"
    by (simp add: New_def NewTemplate_def Reset_loop.simps startTag_def endTag_def)
  have un: "unresolvedTag ascii_only ?m ''a''" "\<not> unresolvedTag ascii_only ?m ''x''"
      "unresolvedTag ascii_only ?m ''b''"
    by (simp_all add: unresolvedTag_def TrimSpace_def asciiSpace_def isASCII_def RuneSelf_def)
  then have f: "filter (unresolvedTag ascii_only ?m) (tags ?t) = [''a'', ''b'']" by simp
  then have ne: "filter (unresolvedTag ascii_only ?m) (tags ?t) \<noteq> []" by simp
  have w: "map (written ascii_only ?m False) (tags ?t) = ['''', ''X'', '''', ''X'']"
    by (simp add: written_def TrimSpace_def asciiSpace_def isASCII_def RuneSelf_def
        appendEscapedRune_def)
  from last_unresolved_token_reported [OF n ne] show ?thesis
    unfolding f w by simp
qed

section \<open>Stand-ins for the libraries, to evaluate the functions on examples\<close>

text \<open>
  The serialised form of an \<open>Application\<close> is the text of its \<open>Spec\<close>; deserialising is
  the function \<open>unmarshal\<close> given; a Go template is its source text and executes to it.
\<close>

definition stub_library ::
  "(string \<Rightarrow> string + string Application) \<Rightarrow> (string, string) library" where
  "stub_library unmarshal =
     \<lparr>jsonMarshal = (\<lambda>a. Inr (Spec a)),
      jsonUnmarshal = unmarshal,
      yamlMarshal = (\<lambda>a. Inr (Spec a)),
      yamlUnmarshal = unmarshal,
      templateParse = (\<lambda>s. Inr s),
      templateExecute = (\<lambda>t m. Inr t),
      uni = ascii_only\<rparr>"

text \<open>Deserialising to an object with the finalizers \<open>fs\<close> and the text as \<open>Spec\<close>.\<close>

definition with_finalizers :: "string list option \<Rightarrow> string \<Rightarrow> string + string Application" where
  "with_finalizers fs s =
     Inr \<lparr>ObjectMeta = \<lparr>Name = [], Finalizers = fs, Annotations = Map.empty\<rparr>, Spec = s\<rparr>"

definition example_app :: "string \<Rightarrow> string Application" where
  "example_app spec =
     \<lparr>ObjectMeta = \<lparr>Name = ''guestbook'', Finalizers = None, Annotations = Map.empty\<rparr>, Spec = spec\<rparr>"


section \<open>Escaping of resolved values\<close>







lemma unquote_backslashed:
  assumes "e \<noteq> CHR ''u''" "unquoteEscape e = Some d"
  shows "unquoteBytes_loop (CHR 0x5C # e # rest) = emit d (unquoteBytes_loop rest)"
  using assms by simp















section \<open>Properties of RenderTemplateParams\<close>

lemma Substitute_True_no_error:
  "Substitute u text params True = Returns (out, err) \<Longrightarrow> err = None"
  by (auto simp: Substitute_def replaceWithFastTemplate_True split: outcome.splits)

lemma renderFastTemplate_error:
  "renderFastTemplate lib tmpl params = Returns (Inl err) \<Longrightarrow> \<exists>msg. err = JSONError msg"
  by (auto simp: renderFastTemplate_def split: sum.splits outcome.splits option.splits
      dest: Substitute_True_no_error)

lemma renderGoTemplate_error:
  "renderGoTemplate lib tmpl params = Returns (Inl err) \<Longrightarrow>
     (\<exists>msg. err = YAMLError msg) \<or> (\<exists>msg. err = TemplateError msg)"
  by (auto simp: renderGoTemplate_def replaceWithGoTemplate_def
      split: sum.splits option.splits prod.splits)

lemma substituted_error:
  "substituted lib tmpl templateOptions params = Returns (Inl err) \<Longrightarrow>
     \<forall>msg. err \<noteq> Errorf msg"
  by (auto simp: substituted_def split: option.splits if_splits
      dest: renderFastTemplate_error renderGoTemplate_error)

text \<open>
  C3. Past the tests of the template and of \<open>len(params)\<close>, the test of
  \<open>templateOptions\<close> selects the branch: nil or \<open>GotemplateEnabled\<close>
  false, the JSON text goes through \<open>replaceWithFastTemplate\<close> with
  \<open>allowUnresolved = true\<close>; true, the YAML text goes through the Go template. With
  \<open>allowUnresolved = true\<close> the substitutor returns no error, and no call of
  \<open>RenderTemplateParams\<close> returns the error "failed to resolve".
\<close>

theorem render_dispatch:
  "(\<forall>a. dom params \<noteq> {} \<longrightarrow>
      RenderTemplateParams lib new (Some (Ref a tmpl)) syncPolicy templateOptions params =
        (case substituted lib tmpl templateOptions params of
           Returns (Inr replacedTmpl) \<Rightarrow>
             Returns (Some (Ref new (addFinalizer syncPolicy replacedTmpl)), None)
         | Returns (Inl err) \<Rightarrow> Returns (None, Some err)
         | Panics \<Rightarrow> Panics)) \<and>
   (templateOptions = None \<longrightarrow>
      substituted lib tmpl templateOptions params = renderFastTemplate lib tmpl params) \<and>
   (\<forall>opts. templateOptions = Some opts \<longrightarrow> \<not> GotemplateEnabled opts \<longrightarrow>
      substituted lib tmpl templateOptions params = renderFastTemplate lib tmpl params) \<and>
   (\<forall>opts. templateOptions = Some opts \<longrightarrow> GotemplateEnabled opts \<longrightarrow>
      substituted lib tmpl templateOptions params = renderGoTemplate lib tmpl params) \<and>
   (\<forall>tmplBytes fstTmpl. jsonMarshal lib tmpl = Inr tmplBytes \<longrightarrow> New tmplBytes = Returns fstTmpl \<longrightarrow>
      renderFastTemplate lib tmpl params =
        (case replaceWithFastTemplate (uni lib) fstTmpl params True of
           Returns (replacedTmplStr, None) \<Rightarrow>
             (case jsonUnmarshal lib replacedTmplStr of
                Inl err \<Rightarrow> Returns (Inl (JSONError err))
              | Inr replacedTmpl \<Rightarrow> Returns (Inr replacedTmpl))
         | Returns (replacedTmplStr, Some err) \<Rightarrow> Returns (Inl err)
         | Panics \<Rightarrow> Panics)) \<and>
   (\<forall>tmplBytes goTemplate. yamlMarshal lib tmpl = Inr tmplBytes \<longrightarrow>
      templateParse lib tmplBytes = Inr goTemplate \<longrightarrow>
      renderGoTemplate lib tmpl params =
        (case replaceWithGoTemplate lib goTemplate params of
           (replacedTmplStr, None) \<Rightarrow>
             (case yamlUnmarshal lib replacedTmplStr of
                Inl err \<Rightarrow> Returns (Inl (YAMLError err))
              | Inr replacedTmpl \<Rightarrow> Returns (Inr replacedTmpl))
         | (replacedTmplStr, Some err) \<Rightarrow> Returns (Inl err))) \<and>
   (\<forall>fstTmpl s out err. New s = Returns fstTmpl \<longrightarrow>
      replaceWithFastTemplate (uni lib) fstTmpl params True = Returns (out, err) \<longrightarrow> err = None) \<and>
   (\<forall>p obj tag. RenderTemplateParams lib new p syncPolicy templateOptions params \<noteq>
      Returns (obj, Some (Errorf (''failed to resolve {{'' @ tag @ ''}}''))))"
proof (intro conjI allI impI)
  fix p obj tag
  show "RenderTemplateParams lib new p syncPolicy templateOptions params \<noteq>
      Returns (obj, Some (Errorf (''failed to resolve {{'' @ tag @ ''}}'')))"
    by (auto simp: RenderTemplateParams_def split: option.splits outcome.splits sum.splits
        dest: substituted_error)
next
  fix fstTmpl s out err
  assume "New s = Returns fstTmpl"
    "replaceWithFastTemplate (uni lib) fstTmpl params True = Returns (out, err)"
  then show "err = None" by (simp add: replaceWithFastTemplate_True)
qed (simp_all add: RenderTemplateParams_def substituted_def renderFastTemplate_def
       renderGoTemplate_def Substitute_def
       split: outcome.splits option.splits prod.splits sum.splits)



lemma stub_fast:
  "renderFastTemplate (stub_library un) (example_app ''{{ y }}-{{unknown}}'') [''y'' \<mapsto> ''v''] =
     (case un ''v-{{unknown}}'' of
        Inl err \<Rightarrow> Returns (Inl (JSONError err))
      | Inr replacedTmpl \<Rightarrow> Returns (Inr replacedTmpl))"
proof -
  let ?t2 = "\<lparr>template = ''{{ y }}-{{unknown}}'', texts = [[], ''-'', []], tags = ['' y '', ''unknown'']\<rparr>"
  have n2: "New ''{{ y }}-{{unknown}}'' = Returns ?t2"
    by (simp add: New_def NewTemplate_def Reset_loop.simps startTag_def endTag_def)
  have r2: "rendered ascii_only [''y'' \<mapsto> ''v''] True ?t2 = ''v-{{unknown}}''"
    by (simp add: rendered_def written_def TrimSpace_def asciiSpace_def isASCII_def RuneSelf_def
        appendEscapedRune_def)
  have "Substitute ascii_only ''{{ y }}-{{unknown}}'' [''y'' \<mapsto> ''v''] True = Returns (''v-{{unknown}}'', None)"
    by (simp add: Substitute_def n2 replaceWithFastTemplate_True [OF n2] r2)
  then show ?thesis
    by (simp add: renderFastTemplate_def stub_library_def example_app_def)
qed

lemma stub_go:
  "renderGoTemplate (stub_library un) (example_app ''{{ y }}-{{unknown}}'') [''y'' \<mapsto> ''v''] =
     (case un ''{{ y }}-{{unknown}}'' of
        Inl err \<Rightarrow> Returns (Inl (YAMLError err))
      | Inr replacedTmpl \<Rightarrow> Returns (Inr replacedTmpl))"
  by (simp add: renderGoTemplate_def replaceWithGoTemplate_def stub_library_def example_app_def)

theorem render_dispatch_witness:
  "substituted (stub_library (with_finalizers None)) (example_app ''{{ y }}-{{unknown}}'')
       None [''y'' \<mapsto> ''v''] =
     Returns (Inr \<lparr>ObjectMeta = \<lparr>Name = [], Finalizers = None, Annotations = Map.empty\<rparr>,
                   Spec = ''v-{{unknown}}''\<rparr>) \<and>
   substituted (stub_library (with_finalizers None)) (example_app ''{{ y }}-{{unknown}}'')
       (Some \<lparr>GotemplateEnabled = False\<rparr>) [''y'' \<mapsto> ''v''] =
     Returns (Inr \<lparr>ObjectMeta = \<lparr>Name = [], Finalizers = None, Annotations = Map.empty\<rparr>,
                   Spec = ''v-{{unknown}}''\<rparr>) \<and>
   substituted (stub_library (with_finalizers None)) (example_app ''{{ y }}-{{unknown}}'')
       (Some \<lparr>GotemplateEnabled = True\<rparr>) [''y'' \<mapsto> ''v''] =
     Returns (Inr \<lparr>ObjectMeta = \<lparr>Name = [], Finalizers = None, Annotations = Map.empty\<rparr>,
                   Spec = ''{{ y }}-{{unknown}}''\<rparr>)"
proof -
  let ?lib = "stub_library (with_finalizers None)"
  let ?app = "example_app ''{{ y }}-{{unknown}}''"
  let ?m = "[''y'' \<mapsto> ''v'']"
  note a = render_dispatch [where templateOptions = None and lib = ?lib and tmpl = ?app and params = ?m]
  note b = render_dispatch [where templateOptions = "Some \<lparr>GotemplateEnabled = False\<rparr>" and lib = ?lib
      and tmpl = ?app and params = ?m]
  note c = render_dispatch [where templateOptions = "Some \<lparr>GotemplateEnabled = True\<rparr>" and lib = ?lib
      and tmpl = ?app and params = ?m]
  from a have 1: "substituted ?lib ?app None ?m = renderFastTemplate ?lib ?app ?m"
    by blast
  from b have 2: "substituted ?lib ?app (Some \<lparr>GotemplateEnabled = False\<rparr>) ?m =
      renderFastTemplate ?lib ?app ?m"
    by simp
  from c have 3: "substituted ?lib ?app (Some \<lparr>GotemplateEnabled = True\<rparr>) ?m =
      renderGoTemplate ?lib ?app ?m"
    by simp
  show ?thesis unfolding 1 2 3 stub_fast stub_go by (simp add: with_finalizers_def)
qed

text \<open>
  C1. On the path past the test of \<open>len(params)\<close>, when \<open>RenderTemplateParams\<close> returns an
  object, that object sits in the new variable and is the deserialised object \<open>d\<close> with
  at most its finalizers changed: they are the single finalizer
  \<open>resources-finalizer.argocd.argoproj.io\<close> when \<open>syncPolicy\<close> is nil or does not preserve
  resources and \<open>d\<close> has none (a nil or an empty list); otherwise they are those of \<open>d\<close>,
  the same list in the same order.
\<close>

theorem finalizer_rule:
  assumes "dom params \<noteq> {}"
    and "RenderTemplateParams lib new (Some p) syncPolicy templateOptions params = Returns (Some r, None)"
  shows "\<exists>d. substituted lib (deref p) templateOptions params = Returns (Inr d) \<and>
           addr r = new \<and>
           Spec (deref r) = Spec d \<and>
           Name (ObjectMeta (deref r)) = Name (ObjectMeta d) \<and>
           Annotations (ObjectMeta (deref r)) = Annotations (ObjectMeta d) \<and>
           Finalizers (ObjectMeta (deref r)) =
             (if (syncPolicy = None \<or> (\<exists>sp. syncPolicy = Some sp \<and> \<not> PreserveResourcesOnDeletion sp)) \<and>
                 (Finalizers (ObjectMeta d) = None \<or> Finalizers (ObjectMeta d) = Some [])
              then Some [''resources-finalizer.argocd.argoproj.io'']
              else Finalizers (ObjectMeta d))"
proof -
  from assms obtain d where d: "substituted lib (deref p) templateOptions params = Returns (Inr d)"
    and r: "r = Ref new (addFinalizer syncPolicy d)"
    by (auto simp: RenderTemplateParams_def split: outcome.splits sum.splits)
  have "Finalizers (ObjectMeta (addFinalizer syncPolicy d)) =
             (if (syncPolicy = None \<or> (\<exists>sp. syncPolicy = Some sp \<and> \<not> PreserveResourcesOnDeletion sp)) \<and>
                 (Finalizers (ObjectMeta d) = None \<or> Finalizers (ObjectMeta d) = Some [])
              then Some [''resources-finalizer.argocd.argoproj.io'']
              else Finalizers (ObjectMeta d))"
    by (cases syncPolicy; cases "Finalizers (ObjectMeta d)") (auto simp: addFinalizer_def len_def)
  moreover have "Spec (addFinalizer syncPolicy d) = Spec d"
    "Name (ObjectMeta (addFinalizer syncPolicy d)) = Name (ObjectMeta d)"
    "Annotations (ObjectMeta (addFinalizer syncPolicy d)) = Annotations (ObjectMeta d)"
    by (simp_all add: addFinalizer_def)
  ultimately show ?thesis using d r by simp
qed

lemma stub_render:
  "RenderTemplateParams (stub_library (with_finalizers fs)) 7
       (Some (Ref 3 (example_app ''{{ y }}-{{unknown}}''))) syncPolicy None [''y'' \<mapsto> ''v''] =
     Returns (Some (Ref 7 (addFinalizer syncPolicy
        \<lparr>ObjectMeta = \<lparr>Name = [], Finalizers = fs, Annotations = Map.empty\<rparr>,
           Spec = ''v-{{unknown}}''\<rparr>)), None)"
  by (simp add: RenderTemplateParams_def substituted_def stub_fast with_finalizers_def)

theorem finalizer_rule_witness:
  "(\<exists>r. RenderTemplateParams (stub_library (with_finalizers None)) 7
       (Some (Ref 3 (example_app ''{{ y }}-{{unknown}}''))) None None [''y'' \<mapsto> ''v''] =
         Returns (Some r, None) \<and>
       Finalizers (ObjectMeta (deref r)) = Some [''resources-finalizer.argocd.argoproj.io'']) \<and>
   (\<exists>r. RenderTemplateParams (stub_library (with_finalizers (Some [])))  7
       (Some (Ref 3 (example_app ''{{ y }}-{{unknown}}'')))
       (Some \<lparr>PreserveResourcesOnDeletion = False\<rparr>) None [''y'' \<mapsto> ''v''] =
         Returns (Some r, None) \<and>
       Finalizers (ObjectMeta (deref r)) = Some [''resources-finalizer.argocd.argoproj.io'']) \<and>
   (\<exists>r. RenderTemplateParams (stub_library (with_finalizers (Some []))) 7
       (Some (Ref 3 (example_app ''{{ y }}-{{unknown}}'')))
       (Some \<lparr>PreserveResourcesOnDeletion = True\<rparr>) None [''y'' \<mapsto> ''v''] =
         Returns (Some r, None) \<and>
       Finalizers (ObjectMeta (deref r)) = Some []) \<and>
   (\<exists>r. RenderTemplateParams (stub_library (with_finalizers (Some [''b'', ''a'']))) 7
       (Some (Ref 3 (example_app ''{{ y }}-{{unknown}}''))) None None [''y'' \<mapsto> ''v''] =
         Returns (Some r, None) \<and>
       Finalizers (ObjectMeta (deref r)) = Some [''b'', ''a''])"
proof -
  let ?p = "Ref 3 (example_app ''{{ y }}-{{unknown}}'')"
  let ?m = "[''y'' \<mapsto> ''v'']"
  have ne: "dom ?m \<noteq> {}" by simp
  have sub: "\<And>fs. substituted (stub_library (with_finalizers fs)) (deref ?p) None ?m =
      Returns (Inr \<lparr>ObjectMeta = \<lparr>Name = [], Finalizers = fs, Annotations = Map.empty\<rparr>,
           Spec = ''v-{{unknown}}''\<rparr>)"
    by (simp add: substituted_def stub_fast with_finalizers_def)
  from finalizer_rule [OF ne stub_render [of None None]]
  have 1: "Finalizers (ObjectMeta (deref (Ref 7 (addFinalizer None
        \<lparr>ObjectMeta = \<lparr>Name = [], Finalizers = None, Annotations = Map.empty\<rparr>,
           Spec = ''v-{{unknown}}''\<rparr>)))) = Some [''resources-finalizer.argocd.argoproj.io'']"
    unfolding sub by auto
  from finalizer_rule [OF ne stub_render [of "Some []" "Some \<lparr>PreserveResourcesOnDeletion = False\<rparr>"]]
  have 2: "Finalizers (ObjectMeta (deref (Ref 7 (addFinalizer (Some \<lparr>PreserveResourcesOnDeletion = False\<rparr>)
        \<lparr>ObjectMeta = \<lparr>Name = [], Finalizers = Some [], Annotations = Map.empty\<rparr>,
           Spec = ''v-{{unknown}}''\<rparr>)))) = Some [''resources-finalizer.argocd.argoproj.io'']"
    unfolding sub by auto
  from finalizer_rule [OF ne stub_render [of "Some []" "Some \<lparr>PreserveResourcesOnDeletion = True\<rparr>"]]
  have 3: "Finalizers (ObjectMeta (deref (Ref 7 (addFinalizer (Some \<lparr>PreserveResourcesOnDeletion = True\<rparr>)
        \<lparr>ObjectMeta = \<lparr>Name = [], Finalizers = Some [], Annotations = Map.empty\<rparr>,
           Spec = ''v-{{unknown}}''\<rparr>)))) = Some []"
    unfolding sub by auto
  from finalizer_rule [OF ne stub_render [of "Some [''b'', ''a'']" None]]
  have 4: "Finalizers (ObjectMeta (deref (Ref 7 (addFinalizer None
        \<lparr>ObjectMeta = \<lparr>Name = [], Finalizers = Some [''b'', ''a''], Annotations = Map.empty\<rparr>,
           Spec = ''v-{{unknown}}''\<rparr>)))) = Some [''b'', ''a'']"
    unfolding sub by auto
  from 1 2 3 4 show ?thesis unfolding stub_render by simp
qed

text \<open>
  C4. With no parameters (a nil or an empty map) \<open>RenderTemplateParams\<close> returns the
  pointer it was given, for every sync policy and every template option: the same
  address and the same object, with no error; no library is called and no finalizer is
  added.
\<close>

theorem empty_params_identity:
  "dom params = {} \<Longrightarrow>
     RenderTemplateParams lib new (Some p) syncPolicy templateOptions params = Returns (Some p, None)"
  by (simp add: RenderTemplateParams_def)

theorem empty_params_identity_witness:
  "RenderTemplateParams (stub_library (with_finalizers None)) 7
       (Some (Ref 3 (example_app ''{{ y }}-{{unknown}}'')))
       None (Some \<lparr>GotemplateEnabled = True\<rparr>) Map.empty =
     Returns (Some (Ref 3 (example_app ''{{ y }}-{{unknown}}'')), None)"
  using empty_params_identity [of Map.empty "stub_library (with_finalizers None)" 7
      "Ref 3 (example_app ''{{ y }}-{{unknown}}'')" None "Some \<lparr>GotemplateEnabled = True\<rparr>"]
  by simp

text \<open>
  C7. A nil template makes \<open>RenderTemplateParams\<close> return the error "application
  template is empty" and no object. Whenever it returns an error the object is nil, and
  whenever it returns no error the object is not nil. On each failing step (serialising,
  parsing or executing the Go template, deserialising) the call returns nil with the
  error of that step. (A panic, as \<open>fasttemplate.New\<close> raises on a start tag that is never
  closed, returns neither.)
\<close>

theorem render_error_has_no_object:
  "RenderTemplateParams lib new None syncPolicy templateOptions params =
     Returns (None, Some (Errorf ''application template is empty '')) \<and>
   (\<forall>obj err. RenderTemplateParams lib new tmpl syncPolicy templateOptions params = Returns (obj, Some err)
      \<longrightarrow> obj = None) \<and>
   (\<forall>obj. RenderTemplateParams lib new tmpl syncPolicy templateOptions params = Returns (obj, None)
      \<longrightarrow> obj \<noteq> None) \<and>
   (dom params \<noteq> {} \<longrightarrow>
    (templateOptions = None \<or> (\<exists>opts. templateOptions = Some opts \<and> \<not> GotemplateEnabled opts)) \<longrightarrow>
      (\<forall>err. jsonMarshal lib app = Inl err \<longrightarrow>
         RenderTemplateParams lib new (Some (Ref a app)) syncPolicy templateOptions params =
           Returns (None, Some (JSONError err))) \<and>
      (\<forall>tmplBytes out err. jsonMarshal lib app = Inr tmplBytes \<longrightarrow>
         Substitute (uni lib) tmplBytes params True = Returns (out, None) \<longrightarrow>
         jsonUnmarshal lib out = Inl err \<longrightarrow>
         RenderTemplateParams lib new (Some (Ref a app)) syncPolicy templateOptions params =
           Returns (None, Some (JSONError err)))) \<and>
   (dom params \<noteq> {} \<longrightarrow>
    (\<exists>opts. templateOptions = Some opts \<and> GotemplateEnabled opts) \<longrightarrow>
      (\<forall>err. yamlMarshal lib app = Inl err \<longrightarrow>
         RenderTemplateParams lib new (Some (Ref a app)) syncPolicy templateOptions params =
           Returns (None, Some (YAMLError err))) \<and>
      (\<forall>tmplBytes err. yamlMarshal lib app = Inr tmplBytes \<longrightarrow>
         templateParse lib tmplBytes = Inl err \<longrightarrow>
         RenderTemplateParams lib new (Some (Ref a app)) syncPolicy templateOptions params =
           Returns (None, Some (TemplateError err))) \<and>
      (\<forall>tmplBytes goTemplate err. yamlMarshal lib app = Inr tmplBytes \<longrightarrow>
         templateParse lib tmplBytes = Inr goTemplate \<longrightarrow>
         templateExecute lib goTemplate params = Inl err \<longrightarrow>
         RenderTemplateParams lib new (Some (Ref a app)) syncPolicy templateOptions params =
           Returns (None, Some (TemplateError err))) \<and>
      (\<forall>tmplBytes goTemplate out err. yamlMarshal lib app = Inr tmplBytes \<longrightarrow>
         templateParse lib tmplBytes = Inr goTemplate \<longrightarrow>
         templateExecute lib goTemplate params = Inr out \<longrightarrow>
         yamlUnmarshal lib out = Inl err \<longrightarrow>
         RenderTemplateParams lib new (Some (Ref a app)) syncPolicy templateOptions params =
           Returns (None, Some (YAMLError err))))"
proof (intro conjI)
  show "RenderTemplateParams lib new None syncPolicy templateOptions params =
     Returns (None, Some (Errorf ''application template is empty ''))"
    by (simp add: RenderTemplateParams_def)
  show "\<forall>obj err. RenderTemplateParams lib new tmpl syncPolicy templateOptions params = Returns (obj, Some err)
      \<longrightarrow> obj = None"
    by (auto simp: RenderTemplateParams_def split: option.splits outcome.splits sum.splits if_splits)
  show "\<forall>obj. RenderTemplateParams lib new tmpl syncPolicy templateOptions params = Returns (obj, None)
      \<longrightarrow> obj \<noteq> None"
    by (auto simp: RenderTemplateParams_def split: option.splits outcome.splits sum.splits if_splits)
qed (auto simp: RenderTemplateParams_def substituted_def renderFastTemplate_def renderGoTemplate_def
       replaceWithGoTemplate_def)


theorem render_error_has_no_object_witness:
  "RenderTemplateParams (stub_library (\<lambda>s. Inl ''unexpected end of JSON input'')) 7
       None None None [''y'' \<mapsto> ''v''] =
     Returns (None, Some (Errorf ''application template is empty '')) \<and>
   RenderTemplateParams (stub_library (\<lambda>s. Inl ''unexpected end of JSON input'')) 7
       (Some (Ref 3 (example_app ''{{ y }}-{{unknown}}''))) None None [''y'' \<mapsto> ''v''] =
     Returns (None, Some (JSONError ''unexpected end of JSON input''))"
proof -
  let ?lib = "stub_library (\<lambda>s. Inl ''unexpected end of JSON input'')"
  let ?p = "Some (Ref 3 (example_app ''{{ y }}-{{unknown}}''))"
  let ?m = "[''y'' \<mapsto> ''v'']"
  note th = render_error_has_no_object [where lib = ?lib and new = 7 and syncPolicy = None
      and templateOptions = None and params = ?m and tmpl = ?p
      and app = "example_app ''{{ y }}-{{unknown}}''" and a = 3]
  have "\<exists>obj. RenderTemplateParams ?lib 7 ?p None None ?m =
      Returns (obj, Some (JSONError ''unexpected end of JSON input''))"
    by (simp add: RenderTemplateParams_def substituted_def stub_fast)
  then obtain obj where r: "RenderTemplateParams ?lib 7 ?p None None ?m =
      Returns (obj, Some (JSONError ''unexpected end of JSON input''))" ..
  from th have "\<forall>obj err. RenderTemplateParams ?lib 7 ?p None None ?m = Returns (obj, Some err)
      \<longrightarrow> obj = None"
    by (elim conjE)
  with r have "obj = None" by blast
  moreover from th have "RenderTemplateParams ?lib 7 None None None ?m =
      Returns (None, Some (Errorf ''application template is empty ''))"
    by (elim conjE)
  ultimately show ?thesis using r by simp
qed

lemma render_panics_on_unclosed_tag:
  "RenderTemplateParams (stub_library (with_finalizers None)) 7
       (Some (Ref 3 (example_app ''{{ y''))) None None [''y'' \<mapsto> ''v''] = Panics"
  by (simp add: RenderTemplateParams_def substituted_def renderFastTemplate_def stub_library_def
      example_app_def Substitute_def New_def NewTemplate_def Reset_loop.simps startTag_def endTag_def)

section \<open>Properties of invalidGenerators\<close>

text \<open>A generator all of whose fields open to reflection are nil.\<close>

definition allNil :: "ApplicationSetGenerator \<Rightarrow> bool" where
  "allNil generator = list_all (\<lambda>f. CanInterface f \<longrightarrow> IsNil f) generator"

lemma found_iff: "found generator \<longleftrightarrow> \<not> allNil generator"
  by (induction generator) (auto simp: allNil_def)

lemma invalidGenerators_loop_fst:
  "fst (invalidGenerators_loop env a i gs (h, st)) \<longleftrightarrow> h \<or> (\<exists>g \<in> set gs. allNil g)"
  by (induction gs arbitrary: i h st) (auto simp: found_iff)

lemma invalidGenerators_loop_names:
  assumes "\<And>st i. names (addInvalidGeneratorNames env st a i) = names st"
  shows "names (snd (invalidGenerators_loop env a i gs (h, st))) = names st"
  by (induction gs arbitrary: i h st) (simp_all add: assms)

lemma no_name_unmarshal:
  "Unmarshal_map env (lastAppliedConfiguration a) = None \<Longrightarrow>
     names (addInvalidGeneratorNames env st a i) = names st"
  by (simp add: addInvalidGeneratorNames_def Warn_def)

lemma Unmarshal_map_missing:
  "Annotations (ObjectMeta a) ''kubectl.kubernetes.io/last-applied-configuration'' = None \<Longrightarrow>
     Unmarshal_map env (lastAppliedConfiguration a) = None"
  by (simp add: Unmarshal_map_def lastAppliedConfiguration_def)

lemma Unmarshal_map_malformed:
  "jsonDecode env (lastAppliedConfiguration a) = None \<Longrightarrow>
     Unmarshal_map env (lastAppliedConfiguration a) = None"
  by (simp add: Unmarshal_map_def)

text \<open>
  C9. \<open>invalidGenerators\<close> returns \<open>true\<close> exactly when some generator of the
  \<open>ApplicationSet\<close> has all its slots nil. Recovering a name adds none, and only logs a
  warning, when the annotation is missing, when its text is not valid JSON or is a JSON
  value other than an object, when \<open>spec\<close> is missing or not an object, when
  \<open>generators\<close> is missing or not an array, when the index is out of range, and when the
  element at the index is not an object. With a missing or malformed annotation and a
  generator with all slots nil, the result is \<open>true\<close> with no names.
\<close>

theorem invalid_generators_inspection:
  "(fst (invalidGenerators env a) \<longleftrightarrow> (\<exists>g \<in> set (Generators (Spec a)). allNil g)) \<and>
   (Annotations (ObjectMeta a) ''kubectl.kubernetes.io/last-applied-configuration'' = None \<longrightarrow>
      names (addInvalidGeneratorNames env st a i) = names st) \<and>
   (jsonDecode env (lastAppliedConfiguration a) = None \<longrightarrow>
      names (addInvalidGeneratorNames env st a i) = names st) \<and>
   (\<forall>j. jsonDecode env (lastAppliedConfiguration a) = Some j \<longrightarrow> j \<noteq> JNull \<longrightarrow>
      (\<forall>members. j \<noteq> JObject members) \<longrightarrow>
      names (addInvalidGeneratorNames env st a i) = names st) \<and>
   (\<forall>vals. Unmarshal_map env (lastAppliedConfiguration a) = Some vals \<longrightarrow>
      (\<forall>spec. map_of vals ''spec'' \<noteq> Some (JObject spec)) \<longrightarrow>
      names (addInvalidGeneratorNames env st a i) = names st) \<and>
   (\<forall>vals spec. Unmarshal_map env (lastAppliedConfiguration a) = Some vals \<longrightarrow>
      map_of vals ''spec'' = Some (JObject spec) \<longrightarrow>
      (\<forall>generators. map_of spec ''generators'' \<noteq> Some (JArray generators)) \<longrightarrow>
      names (addInvalidGeneratorNames env st a i) = names st) \<and>
   (\<forall>vals spec generators. Unmarshal_map env (lastAppliedConfiguration a) = Some vals \<longrightarrow>
      map_of vals ''spec'' = Some (JObject spec) \<longrightarrow>
      map_of spec ''generators'' = Some (JArray generators) \<longrightarrow>
      length generators \<le> i \<longrightarrow>
      names (addInvalidGeneratorNames env st a i) = names st) \<and>
   (\<forall>vals spec generators. Unmarshal_map env (lastAppliedConfiguration a) = Some vals \<longrightarrow>
      map_of vals ''spec'' = Some (JObject spec) \<longrightarrow>
      map_of spec ''generators'' = Some (JArray generators) \<longrightarrow>
      i < length generators \<longrightarrow> (\<forall>generator. generators ! i \<noteq> JObject generator) \<longrightarrow>
      names (addInvalidGeneratorNames env st a i) = names st) \<and>
   ((Annotations (ObjectMeta a) ''kubectl.kubernetes.io/last-applied-configuration'' = None \<or>
     jsonDecode env (lastAppliedConfiguration a) = None) \<longrightarrow>
    (\<exists>g \<in> set (Generators (Spec a)). allNil g) \<longrightarrow>
      fst (invalidGenerators env a) = True \<and> names (snd (invalidGenerators env a)) = {})"
proof (intro conjI allI impI)
  show "fst (invalidGenerators env a) \<longleftrightarrow> (\<exists>g \<in> set (Generators (Spec a)). allNil g)"
    by (simp add: invalidGenerators_def invalidGenerators_loop_fst)
next
  assume "Annotations (ObjectMeta a) ''kubectl.kubernetes.io/last-applied-configuration'' = None"
  then show "names (addInvalidGeneratorNames env st a i) = names st"
    by (simp add: no_name_unmarshal Unmarshal_map_missing)
next
  assume "jsonDecode env (lastAppliedConfiguration a) = None"
  then show "names (addInvalidGeneratorNames env st a i) = names st"
    by (simp add: no_name_unmarshal Unmarshal_map_malformed)
next
  fix j assume "jsonDecode env (lastAppliedConfiguration a) = Some j" "j \<noteq> JNull"
    "\<forall>members. j \<noteq> JObject members"
  then have "Unmarshal_map env (lastAppliedConfiguration a) = None"
    by (cases j) (simp_all add: Unmarshal_map_def)
  then show "names (addInvalidGeneratorNames env st a i) = names st"
    by (rule no_name_unmarshal)
next
  fix vals
  assume "Unmarshal_map env (lastAppliedConfiguration a) = Some vals"
    "\<forall>spec. map_of vals ''spec'' \<noteq> Some (JObject spec)"
  then show "names (addInvalidGeneratorNames env st a i) = names st"
    by (simp add: addInvalidGeneratorNames_def Warn_def split: option.splits json.splits)
next
  fix vals spec
  assume "Unmarshal_map env (lastAppliedConfiguration a) = Some vals"
    "map_of vals ''spec'' = Some (JObject spec)"
    "\<forall>generators. map_of spec ''generators'' \<noteq> Some (JArray generators)"
  then show "names (addInvalidGeneratorNames env st a i) = names st"
    by (simp add: addInvalidGeneratorNames_def Warn_def split: option.splits json.splits)
next
  fix vals spec generators
  assume "Unmarshal_map env (lastAppliedConfiguration a) = Some vals"
    "map_of vals ''spec'' = Some (JObject spec)"
    "map_of spec ''generators'' = Some (JArray generators)"
    "length generators \<le> i"
  then show "names (addInvalidGeneratorNames env st a i) = names st"
    by (simp add: addInvalidGeneratorNames_def Warn_def)
next
  fix vals spec generators
  assume "Unmarshal_map env (lastAppliedConfiguration a) = Some vals"
    "map_of vals ''spec'' = Some (JObject spec)"
    "map_of spec ''generators'' = Some (JArray generators)"
    "i < length generators" "\<forall>generator. generators ! i \<noteq> JObject generator"
  then show "names (addInvalidGeneratorNames env st a i) = names st"
    by (simp add: addInvalidGeneratorNames_def Warn_def split: json.splits)
next
  assume bad: "Annotations (ObjectMeta a) ''kubectl.kubernetes.io/last-applied-configuration'' = None \<or>
     jsonDecode env (lastAppliedConfiguration a) = None"
    and ex: "\<exists>g \<in> set (Generators (Spec a)). allNil g"
  from ex show "fst (invalidGenerators env a) = True"
    by (simp add: invalidGenerators_def invalidGenerators_loop_fst)
  from bad have "Unmarshal_map env (lastAppliedConfiguration a) = None"
    by (auto simp: Unmarshal_map_missing Unmarshal_map_malformed)
  then have "\<And>st i. names (addInvalidGeneratorNames env st a i) = names st"
    by (rule no_name_unmarshal)
  then show "names (snd (invalidGenerators env a)) = {}"
    by (simp add: invalidGenerators_def invalidGenerators_loop_names)
qed


text \<open>A stand-in for the JSON decoder that knows one document, and an \<open>ApplicationSet\<close> of
  three generators of two slots each, the second with both slots nil.\<close>

definition example_decode :: "string \<Rightarrow> json option" where
  \<open>example_decode s =
     (if s = ''{"spec":{"generators":[{"list":{}},{"git":{}},{"matrix":{}}]}}''
      then Some (JObject [(''spec'', JObject [(''generators'',
             JArray [JObject [(''list'', JObject [])], JObject [(''git'', JObject [])],
                     JObject [(''matrix'', JObject [])]])])])
      else None)\<close>

definition example_inspector :: inspector where
  "example_inspector = \<lparr>jsonDecode = example_decode, rangeStart = (\<lambda>members. 0)\<rparr>"

definition example_set :: "(string \<rightharpoonup> string) \<Rightarrow> ApplicationSet" where
  "example_set annotations =
     \<lparr>ObjectMeta = \<lparr>Name = ''guestbook'', Finalizers = None, Annotations = annotations\<rparr>,
      Spec = \<lparr>Generators =
        [[\<lparr>CanInterface = True, IsNil = False\<rparr>, \<lparr>CanInterface = True, IsNil = True\<rparr>],
         [\<lparr>CanInterface = True, IsNil = True\<rparr>, \<lparr>CanInterface = True, IsNil = True\<rparr>],
         [\<lparr>CanInterface = True, IsNil = True\<rparr>, \<lparr>CanInterface = True, IsNil = False\<rparr>]]\<rparr>\<rparr>"

theorem invalid_generators_inspection_witness:
  \<open>invalidGenerators example_inspector (example_set Map.empty) =
     (True, \<lparr>names = {}, warnings = [CouldntUnmarshal []]\<rparr>) \<and>
   invalidGenerators example_inspector
       (example_set [''kubectl.kubernetes.io/last-applied-configuration'' \<mapsto> ''{"spec":'']) =
     (True, \<lparr>names = {}, warnings = [CouldntUnmarshal ''{"spec":'']\<rparr>) \<and>
   invalidGenerators example_inspector
       (example_set [''kubectl.kubernetes.io/last-applied-configuration'' \<mapsto>
          ''{"spec":{"generators":[{"list":{}},{"git":{}},{"matrix":{}}]}}'']) =
     (True, \<lparr>names = {''git''}, warnings = []\<rparr>)\<close>
proof -
  let ?key = "''kubectl.kubernetes.io/last-applied-configuration''"
  let ?a = "example_set Map.empty"
  let ?b = \<open>example_set [?key \<mapsto> ''{"spec":'']\<close>
  let ?c = \<open>example_set [?key \<mapsto> ''{"spec":{"generators":[{"list":{}},{"git":{}},{"matrix":{}}]}}'']\<close>
  have nil: "\<And>ann. \<exists>g \<in> set (Generators (Spec (example_set ann))). allNil g"
    by (simp add: example_set_def allNil_def)
  have missing: "Annotations (ObjectMeta ?a) ?key = None" by (simp add: example_set_def)
  have malformed: "jsonDecode example_inspector (lastAppliedConfiguration ?b) = None"
    by (simp add: example_inspector_def example_decode_def lastAppliedConfiguration_def
        example_set_def)
  let ?st = "\<lparr>names = {}, warnings = []\<rparr>"
  from invalid_generators_inspection [of example_inspector ?a ?st 0]
  have "(Annotations (ObjectMeta ?a) ?key = None \<or>
         jsonDecode example_inspector (lastAppliedConfiguration ?a) = None) \<longrightarrow>
        (\<exists>g \<in> set (Generators (Spec ?a)). allNil g) \<longrightarrow>
        fst (invalidGenerators example_inspector ?a) = True \<and>
        names (snd (invalidGenerators example_inspector ?a)) = {}"
    by (elim conjE)
  with missing nil have a: "fst (invalidGenerators example_inspector ?a) = True"
      "names (snd (invalidGenerators example_inspector ?a)) = {}"
    by simp_all
  from invalid_generators_inspection [of example_inspector ?b ?st 0]
  have "(Annotations (ObjectMeta ?b) ?key = None \<or>
         jsonDecode example_inspector (lastAppliedConfiguration ?b) = None) \<longrightarrow>
        (\<exists>g \<in> set (Generators (Spec ?b)). allNil g) \<longrightarrow>
        fst (invalidGenerators example_inspector ?b) = True \<and>
        names (snd (invalidGenerators example_inspector ?b)) = {}"
    by (elim conjE)
  with malformed nil have b: "fst (invalidGenerators example_inspector ?b) = True"
      "names (snd (invalidGenerators example_inspector ?b)) = {}"
    by simp_all
  have wa: "warnings (snd (invalidGenerators example_inspector ?a)) = [CouldntUnmarshal []]"
    by (simp add: invalidGenerators_def example_set_def addInvalidGeneratorNames_def
        lastAppliedConfiguration_def Unmarshal_map_def Warn_def)
  have wb: \<open>warnings (snd (invalidGenerators example_inspector ?b)) = [CouldntUnmarshal ''{"spec":'']\<close>
    by (simp add: invalidGenerators_def example_set_def addInvalidGeneratorNames_def
        lastAppliedConfiguration_def Unmarshal_map_def Warn_def example_inspector_def
        example_decode_def)
  have c: "invalidGenerators example_inspector ?c = (True, \<lparr>names = {''git''}, warnings = []\<rparr>)"
    by (simp add: invalidGenerators_def example_set_def addInvalidGeneratorNames_def
        lastAppliedConfiguration_def Unmarshal_map_def Warn_def example_inspector_def
        example_decode_def)
  have eqI: "\<And>x b n w. fst x = b \<Longrightarrow> names (snd x) = n \<Longrightarrow> warnings (snd x) = w \<Longrightarrow>
      x = (b, \<lparr>names = n, warnings = w\<rparr>)"
    by (auto simp: prod_eq_iff)
  from eqI [OF a wa] eqI [OF b wb] c show ?thesis by simp
qed


end
